theory Spec2Isabelle
  imports Complex_Main
begin

section \<open>Floating-point values\<close>

text \<open>
  The dashboard computes on IEEE-754 doubles held in pandas columns, where a missing
  observation is the value NaN. The model keeps the three special values and takes the
  finite values as exact reals: rounding, overflow and the sign of zero are not modelled.
  Division follows numpy: a finite value divided by zero is an infinity (NaN for 0/0),
  with a warning and no exception. Every comparison with NaN is false, except \<open>!=\<close>.
\<close>

datatype fval = Fin real | PInf | NInf | NaN

fun is_nan :: "fval \<Rightarrow> bool" where
  "is_nan NaN = True"
| "is_nan _ = False"

fun fsub :: "fval \<Rightarrow> fval \<Rightarrow> fval" where
  "fsub (Fin a) (Fin b) = Fin (a - b)"
| "fsub NaN _ = NaN"
| "fsub _ NaN = NaN"
| "fsub PInf PInf = NaN"
| "fsub NInf NInf = NaN"
| "fsub PInf _ = PInf"
| "fsub NInf _ = NInf"
| "fsub _ PInf = NInf"
| "fsub _ NInf = PInf"

fun fmul :: "fval \<Rightarrow> fval \<Rightarrow> fval" where
  "fmul (Fin a) (Fin b) = Fin (a * b)"
| "fmul NaN _ = NaN"
| "fmul _ NaN = NaN"
| "fmul PInf (Fin b) = (if b = 0 then NaN else if 0 < b then PInf else NInf)"
| "fmul NInf (Fin b) = (if b = 0 then NaN else if 0 < b then NInf else PInf)"
| "fmul (Fin a) PInf = (if a = 0 then NaN else if 0 < a then PInf else NInf)"
| "fmul (Fin a) NInf = (if a = 0 then NaN else if 0 < a then NInf else PInf)"
| "fmul PInf PInf = PInf"
| "fmul PInf NInf = NInf"
| "fmul NInf PInf = NInf"
| "fmul NInf NInf = PInf"

fun fdiv :: "fval \<Rightarrow> fval \<Rightarrow> fval" where
  "fdiv (Fin a) (Fin b) =
     (if b = 0 then (if a = 0 then NaN else if 0 < a then PInf else NInf)
      else Fin (a / b))"
| "fdiv NaN _ = NaN"
| "fdiv _ NaN = NaN"
| "fdiv (Fin a) _ = Fin 0"
| "fdiv PInf (Fin b) = (if 0 \<le> b then PInf else NInf)"
| "fdiv NInf (Fin b) = (if 0 \<le> b then NInf else PInf)"
| "fdiv _ _ = NaN"

fun flt :: "fval \<Rightarrow> fval \<Rightarrow> bool" where
  "flt (Fin a) (Fin b) = (a < b)"
| "flt NaN _ = False"
| "flt _ NaN = False"
| "flt _ NInf = False"
| "flt PInf _ = False"
| "flt _ _ = True"

definition fgt :: "fval \<Rightarrow> fval \<Rightarrow> bool" where
  "fgt a b = flt b a"

definition fle :: "fval \<Rightarrow> fval \<Rightarrow> bool" where
  "fle a b = (\<not> is_nan a \<and> \<not> is_nan b \<and> (flt a b \<or> a = b))"

definition fge :: "fval \<Rightarrow> fval \<Rightarrow> bool" where
  "fge a b = fle b a"

definition fne :: "fval \<Rightarrow> fval \<Rightarrow> bool" where
  "fne a b = (is_nan a \<or> is_nan b \<or> a \<noteq> b)"

fun fabs :: "fval \<Rightarrow> fval" where
  "fabs (Fin a) = Fin \<bar>a\<bar>"
| "fabs NaN = NaN"
| "fabs _ = PInf"

section \<open>Frames\<close>

text \<open>
  A row of the frame that \<open>fetch_liquidity_data\<close> returns: the five fetched columns, then
  the derived spread and the twelve moving-average columns. A date is a day number.
\<close>

type_synonym date = int

record raw_row =
  RP :: fval
  RRP :: fval
  Reserves :: fval
  SOFR :: fval
  IORB :: fval

record row = raw_row +
  Spread_bps :: fval
  RP_MA7 :: fval
  RP_MA30 :: fval
  RP_MA60 :: fval
  RRP_MA7 :: fval
  RRP_MA30 :: fval
  RRP_MA60 :: fval
  Reserves_MA7 :: fval
  Reserves_MA30 :: fval
  Reserves_MA60 :: fval
  Spread_bps_MA7 :: fval
  Spread_bps_MA30 :: fval
  Spread_bps_MA60 :: fval

type_synonym frame = "(date \<times> row) list"

datatype py_error = IndexError | KeyError | TypeError

text \<open>Positional access \<open>xs.iloc[i]\<close>: a negative position counts from the end, a position
  out of range raises.\<close>

definition iloc :: "'a list \<Rightarrow> int \<Rightarrow> py_error + 'a" where
  "iloc xs i =
     (if 0 \<le> i \<and> i < int (length xs) then Inr (xs ! nat i)
      else if i < 0 \<and> - int (length xs) \<le> i then Inr (xs ! nat (int (length xs) + i))
      else Inl IndexError)"

section \<open>The status assessment\<close>

text \<open>\<open>WARNING_LEVELS\<close>, one constant for each entry of the table.\<close>

definition RP_normal :: fval where "RP_normal = Fin 20"
definition RP_warning :: fval where "RP_warning = Fin 30"
definition RP_danger :: fval where "RP_danger = Fin 50"
definition RRP_danger :: fval where "RRP_danger = Fin 100"
definition RRP_warning :: fval where "RRP_warning = Fin 200"
definition RRP_normal :: fval where "RRP_normal = Fin 300"
definition Reserves_danger :: fval where "Reserves_danger = Fin 3000"
definition Reserves_warning :: fval where "Reserves_warning = Fin 3200"
definition Spread_normal :: fval where "Spread_normal = Fin 10"
definition Spread_warning :: fval where "Spread_warning = Fin 20"
definition Spread_danger :: fval where "Spread_danger = Fin 100"

text \<open>
  The four level strings of an indicator (red, orange, yellow and green markers), and the
  message texts. The source's messages are Korean sentences; each constructor stands for
  one of them. The four reserve messages embed the 30-row change, which the constructor
  carries (the source prints it with one decimal).
\<close>

datatype level = Danger | Warning | Caution | Normal

datatype message =
    RP_surge | RP_rising | RP_near_upper | RP_stable
  | RRP_extreme_low | RRP_low | RRP_near_lower | RRP_sufficient
  | Reserves_danger_level fval | Reserves_declining fval
  | Reserves_sharp_drop fval | Reserves_stable fval
  | Spread_extreme | Spread_widening | Spread_near_upper | Spread_stable

record ind_status =
  level :: level
  score :: int
  message :: message

datatype indicator = K_RP | K_RRP | K_Reserves | K_Spread

text \<open>The dictionary \<open>assessments\<close>, with its four keys in insertion order.\<close>

type_synonym assessments = "(indicator \<times> ind_status) list"

datatype overall_status = St_good | St_caution | St_warning | St_danger
datatype overall_message = All_normal | Minor_anomalies | Stress_signals | Severe_tension
datatype recommendation =
  Keep_monitoring | Watch_closely | Strengthen_risk_management | Emergency_hedging

record overall =
  o_status :: overall_status
  o_level :: string
  o_message :: overall_message
  o_recommendation :: recommendation
  o_score :: int
  o_max_score :: int

record latest_values =
  lv_RP :: fval
  lv_RRP :: fval
  lv_Reserves :: fval
  lv_Spread :: fval
  lv_SOFR :: fval
  lv_IORB :: fval

record snapshot =
  assessments :: assessments
  overall :: overall
  latest_values :: latest_values
  latest_date :: date

definition rp_status :: "fval \<Rightarrow> ind_status" where
  "rp_status rp_val =
     (if fgt rp_val RP_danger then \<lparr>level = Danger, score = 0, message = RP_surge\<rparr>
      else if fgt rp_val RP_warning then \<lparr>level = Warning, score = 1, message = RP_rising\<rparr>
      else if fgt rp_val RP_normal then \<lparr>level = Caution, score = 2, message = RP_near_upper\<rparr>
      else \<lparr>level = Normal, score = 3, message = RP_stable\<rparr>)"

definition rrp_status :: "fval \<Rightarrow> ind_status" where
  "rrp_status rrp_val =
     (if flt rrp_val RRP_danger
        then \<lparr>level = Danger, score = 0, message = RRP_extreme_low\<rparr>
      else if flt rrp_val RRP_warning
        then \<lparr>level = Warning, score = 1, message = RRP_low\<rparr>
      else if flt rrp_val RRP_normal
        then \<lparr>level = Caution, score = 2, message = RRP_near_lower\<rparr>
      else \<lparr>level = Normal, score = 3, message = RRP_sufficient\<rparr>)"

text \<open>The percentage change \<open>((new - old) / old) * 100\<close>, as the source writes it at each
  place.\<close>

definition pct_change :: "fval \<Rightarrow> fval \<Rightarrow> fval" where
  "pct_change new old = fmul (fdiv (fsub new old) old) (Fin 100)"

text \<open>\<open>res_change_30d\<close>: the reference is \<open>df['Reserves'].iloc[-30]\<close>, and the result is
  0 below thirty rows. The division has no test of the reference.\<close>

definition res_change_30d :: "frame \<Rightarrow> row \<Rightarrow> py_error + fval" where
  "res_change_30d df latest =
     (if 30 \<le> length df then
        (case iloc (map (Reserves \<circ> snd) df) (- 30) of
           Inl e \<Rightarrow> Inl e
         | Inr old \<Rightarrow> Inr (pct_change (Reserves latest) old))
      else Inr (Fin 0))"

definition res_status :: "fval \<Rightarrow> fval \<Rightarrow> ind_status" where
  "res_status res_val change =
     (if flt res_val Reserves_danger
        then \<lparr>level = Danger, score = 0, message = Reserves_danger_level change\<rparr>
      else if flt res_val Reserves_warning
        then \<lparr>level = Warning, score = 1, message = Reserves_declining change\<rparr>
      else if flt change (Fin (- 5))
        then \<lparr>level = Caution, score = 2, message = Reserves_sharp_drop change\<rparr>
      else \<lparr>level = Normal, score = 3, message = Reserves_stable change\<rparr>)"

definition spread_status :: "fval \<Rightarrow> ind_status" where
  "spread_status spread_val =
     (if fgt spread_val Spread_danger
        then \<lparr>level = Danger, score = 0, message = Spread_extreme\<rparr>
      else if fgt spread_val Spread_warning
        then \<lparr>level = Warning, score = 1, message = Spread_widening\<rparr>
      else if fgt spread_val Spread_normal
        then \<lparr>level = Caution, score = 2, message = Spread_near_upper\<rparr>
      else \<lparr>level = Normal, score = 3, message = Spread_stable\<rparr>)"

text \<open>\<open>total_score = sum(a['score'] for a in assessments.values())\<close>\<close>

definition total_score :: "assessments \<Rightarrow> int" where
  "total_score a = sum_list (map (score \<circ> snd) a)"

text \<open>The overall block, with \<open>score\<close> and \<open>max_score\<close> stored after the tier is chosen.\<close>

definition overall_of :: "int \<Rightarrow> overall" where
  "overall_of tot =
     (if 10 \<le> tot then
        \<lparr>o_status = St_good, o_level = ''NORMAL'', o_message = All_normal,
         o_recommendation = Keep_monitoring, o_score = tot, o_max_score = 12\<rparr>
      else if 7 \<le> tot then
        \<lparr>o_status = St_caution, o_level = ''CAUTION'', o_message = Minor_anomalies,
         o_recommendation = Watch_closely, o_score = tot, o_max_score = 12\<rparr>
      else if 4 \<le> tot then
        \<lparr>o_status = St_warning, o_level = ''WARNING'', o_message = Stress_signals,
         o_recommendation = Strengthen_risk_management, o_score = tot, o_max_score = 12\<rparr>
      else
        \<lparr>o_status = St_danger, o_level = ''DANGER'', o_message = Severe_tension,
         o_recommendation = Emergency_hedging, o_score = tot, o_max_score = 12\<rparr>)"

text \<open>\<open>assess_liquidity_status\<close>. On an empty frame \<open>df.iloc[-1]\<close> raises.\<close>

definition assess_liquidity_status :: "frame \<Rightarrow> py_error + snapshot" where
  "assess_liquidity_status df =
     (case iloc df (- 1) of
        Inl e \<Rightarrow> Inl e
      | Inr (latest_d, latest) \<Rightarrow>
          (case res_change_30d df latest of
             Inl e \<Rightarrow> Inl e
           | Inr change \<Rightarrow>
               (let a = [(K_RP, rp_status (RP latest)),
                         (K_RRP, rrp_status (RRP latest)),
                         (K_Reserves, res_status (Reserves latest) change),
                         (K_Spread, spread_status (Spread_bps latest))]
                in Inr \<lparr>assessments = a,
                        overall = overall_of (total_score a),
                        latest_values =
                          \<lparr>lv_RP = RP latest, lv_RRP = RRP latest,
                           lv_Reserves = Reserves latest, lv_Spread = Spread_bps latest,
                           lv_SOFR = SOFR latest, lv_IORB = IORB latest\<rparr>,
                        latest_date = latest_d\<rparr>)))"

text \<open>\<open>assessment['assessments'][indicator]\<close>\<close>

definition lookup :: "assessments \<Rightarrow> indicator \<Rightarrow> ind_status option" where
  "lookup a k = map_of a k"

section \<open>Risk signals\<close>

text \<open>
  The risk-signal block of \<open>main\<close>. A signal is a formatted line: an indicator at warning
  or danger with its message, or an abrupt seven-row move with the change it prints.
\<close>

datatype signal = Indicator_risk indicator message | RP_abrupt fval | RRP_abrupt fval

text \<open>The loop over the four indicator keys, appending to \<open>risk_signals\<close>.\<close>

fun risk_loop :: "assessments \<Rightarrow> indicator list \<Rightarrow> signal list \<Rightarrow> py_error + signal list" where
  "risk_loop a [] risk = Inr risk"
| "risk_loop a (k # ks) risk =
     (case lookup a k of
        None \<Rightarrow> Inl KeyError
      | Some st \<Rightarrow>
          risk_loop a ks
            (if score st \<le> 1 then risk @ [Indicator_risk k (message st)] else risk))"

text \<open>\<open>((c.iloc[-1] - c.iloc[-7]) / c.iloc[-7]) * 100 if c.iloc[-7] != 0 else 0\<close>\<close>

definition change_7d :: "fval list \<Rightarrow> py_error + fval" where
  "change_7d c =
     (case iloc c (- 7) of
        Inl e \<Rightarrow> Inl e
      | Inr old \<Rightarrow>
          if fne old (Fin 0) then
            (case iloc c (- 1) of
               Inl e \<Rightarrow> Inl e
             | Inr new \<Rightarrow> Inr (pct_change new old))
          else Inr (Fin 0))"

definition risk_signals :: "frame \<Rightarrow> snapshot \<Rightarrow> py_error + signal list" where
  "risk_signals df assessment =
     (case risk_loop (assessments assessment) [K_RP, K_RRP, K_Reserves, K_Spread] [] of
        Inl e \<Rightarrow> Inl e
      | Inr risk \<Rightarrow>
          if 7 \<le> length df then
            (case change_7d (map (RP \<circ> snd) df) of
               Inl e \<Rightarrow> Inl e
             | Inr rp_change_7d \<Rightarrow>
                 (case change_7d (map (RRP \<circ> snd) df) of
                    Inl e \<Rightarrow> Inl e
                  | Inr rrp_change_7d \<Rightarrow>
                      (let risk1 = (if fgt (fabs rp_change_7d) (Fin 50)
                                    then risk @ [RP_abrupt rp_change_7d] else risk);
                           risk2 = (if fgt (fabs rrp_change_7d) (Fin 30)
                                    then risk1 @ [RRP_abrupt rrp_change_7d] else risk1)
                       in Inr risk2)))
          else Inr risk)"

text \<open>What the page shows: one warning box for each signal, or the all-clear line when the
  list is empty.\<close>

datatype display = Warning_box signal | Success_no_signals

definition show_signals :: "signal list \<Rightarrow> display list" where
  "show_signals risk = (if risk \<noteq> [] then map Warning_box risk else [Success_no_signals])"

section \<open>Moving averages\<close>

text \<open>
  \<open>c.rolling(window=w, min_periods=m).mean()\<close> of pandas: at each row the window is the row
  and up to \<open>w - 1\<close> rows before it; the result is the mean of the observations present in
  the window, and NaN when fewer than \<open>m\<close> are present. The rolling functions of pandas
  take an infinity as missing.
\<close>

fun is_finite :: "fval \<Rightarrow> bool" where
  "is_finite (Fin a) = True"
| "is_finite _ = False"

fun the_fin :: "fval \<Rightarrow> real" where
  "the_fin (Fin a) = a"
| "the_fin _ = 0"

definition window :: "nat \<Rightarrow> 'a list \<Rightarrow> nat \<Rightarrow> 'a list" where
  "window w xs i = (if w \<le> i + 1 then take w (drop (i + 1 - w) xs) else take (i + 1) xs)"

definition window_mean :: "nat \<Rightarrow> fval list \<Rightarrow> fval" where
  "window_mean m ws =
     (let obs = filter is_finite ws
      in if length obs < m then NaN
         else Fin (sum_list (map the_fin obs) / real (length obs)))"

definition rolling_mean :: "nat \<Rightarrow> nat \<Rightarrow> fval list \<Rightarrow> fval list" where
  "rolling_mean w m c = map (\<lambda>i. window_mean m (window w c i)) [0..<length c]"

section \<open>Fetching and aligning\<close>

text \<open>
  A series is what \<open>fred.get_series\<close> returns: observations indexed by date. The provider
  is outside the repository and is a parameter: it returns a series or raises. The two
  fetch functions are cached for an hour by a decorator; the model is the call that the
  cache does not answer. The operations of pandas (\<open>DataFrame\<close>, \<open>ffill\<close>, \<open>rolling\<close>) are
  library code, modelled as the library documents them.
\<close>

type_synonym series = "(date \<times> fval) list"

datatype provider_error = Network_failure | Unknown_series | Rate_limit | Other_error string

type_synonym provider = "string \<Rightarrow> date \<Rightarrow> provider_error + series"

text \<open>\<open>ffill\<close>: a missing value takes the last value present before it.\<close>

fun ffill_from :: "fval \<Rightarrow> fval list \<Rightarrow> fval list" where
  "ffill_from prev [] = []"
| "ffill_from prev (x # xs) = (let y = (if is_nan x then prev else x) in y # ffill_from y xs)"

definition ffill :: "fval list \<Rightarrow> fval list" where
  "ffill c = ffill_from NaN c"

definition series_ffill :: "series \<Rightarrow> series" where
  "series_ffill data = zip (map fst data) (ffill (map snd data))"

text \<open>The error line that \<open>st.error\<close> shows, with the name it is given and the exception.\<close>

datatype ui_message = Fetch_failed string provider_error

definition fetch_data_with_ffill ::
  "provider \<Rightarrow> string \<Rightarrow> date \<Rightarrow> string \<Rightarrow> series \<times> ui_message list" where
  "fetch_data_with_ffill fred series_id start_date name =
     (case fred series_id start_date of
        Inr data \<Rightarrow> (if 0 < length data then (series_ffill data, []) else ([], []))
      | Inl e \<Rightarrow> ([], [Fetch_failed (if name \<noteq> [] then name else series_id) e]))"

text \<open>
  \<open>pd.DataFrame(all_data)\<close> on a dictionary of series: the index is the sorted union of the
  series' dates, and a column holds its series' value at a date, NaN where the series has
  none. The series are taken to hold one observation for a date. A series that the
  provider gave has an index of dates; the empty series that a fetch leaves is
  \<open>pd.Series()\<close>, whose index is not one of dates. The union is an index of dates only when
  all five are; otherwise pandas 2 makes it an index of another dtype (of objects when
  some series has dates).
\<close>

definition at_date :: "series \<Rightarrow> date \<Rightarrow> fval" where
  "at_date s d = (case map_of s d of None \<Rightarrow> NaN | Some v \<Rightarrow> v)"

datatype index_dtype = Datetime_index | Other_index

type_synonym table = "index_dtype \<times> (date \<times> raw_row) list"

definition DataFrame :: "series \<Rightarrow> series \<Rightarrow> series \<Rightarrow> series \<Rightarrow> series \<Rightarrow> table" where
  "DataFrame rp rrp reserves sofr iorb =
     (if rp \<noteq> [] \<and> rrp \<noteq> [] \<and> reserves \<noteq> [] \<and> sofr \<noteq> [] \<and> iorb \<noteq> []
      then Datetime_index else Other_index,
      map (\<lambda>d. (d, \<lparr>RP = at_date rp d, RRP = at_date rrp d, Reserves = at_date reserves d,
                     SOFR = at_date sofr d, IORB = at_date iorb d\<rparr>))
        (sort (remdups (map fst rp @ map fst rrp @ map fst reserves @ map fst sofr
                         @ map fst iorb))))"

text \<open>\<open>df.ffill()\<close>, column by column; the index stays.\<close>

definition ffill_rows :: "(date \<times> raw_row) list \<Rightarrow> (date \<times> raw_row) list" where
  "ffill_rows t =
     map (\<lambda>i. (fst (t ! i),
               \<lparr>RP = ffill (map (RP \<circ> snd) t) ! i,
                RRP = ffill (map (RRP \<circ> snd) t) ! i,
                Reserves = ffill (map (Reserves \<circ> snd) t) ! i,
                SOFR = ffill (map (SOFR \<circ> snd) t) ! i,
                IORB = ffill (map (IORB \<circ> snd) t) ! i\<rparr>))
       [0..<length t]"

definition frame_ffill :: "table \<Rightarrow> table" where
  "frame_ffill df = (fst df, ffill_rows (snd df))"

text \<open>\<open>df[df.index >= start_date]\<close>, where \<open>start_date\<close> is a string: an index of dates
  compares with it as with a date; the comparison of an index of another dtype with a
  string raises.\<close>

definition from_start :: "date \<Rightarrow> table \<Rightarrow> py_error + (date \<times> raw_row) list" where
  "from_start start_date df =
     (case fst df of
        Datetime_index \<Rightarrow> Inr (filter (\<lambda>(d, r). start_date \<le> d) (snd df))
      | Other_index \<Rightarrow> Inl TypeError)"

text \<open>The spread column and the twelve moving averages.\<close>

definition spread_of :: "raw_row \<Rightarrow> fval" where
  "spread_of r = fmul (fsub (SOFR r) (IORB r)) (Fin 100)"

definition add_columns :: "(date \<times> raw_row) list \<Rightarrow> frame" where
  "add_columns t =
     (let rp = map (RP \<circ> snd) t; rrp = map (RRP \<circ> snd) t;
          res = map (Reserves \<circ> snd) t; sp = map (spread_of \<circ> snd) t
      in map (\<lambda>i. (fst (t ! i),
              raw_row.extend (snd (t ! i))
                (row.fields (sp ! i)
                   (rolling_mean 7 1 rp ! i) (rolling_mean 30 1 rp ! i)
                   (rolling_mean 60 1 rp ! i)
                   (rolling_mean 7 1 rrp ! i) (rolling_mean 30 1 rrp ! i)
                   (rolling_mean 60 1 rrp ! i)
                   (rolling_mean 7 1 res ! i) (rolling_mean 30 1 res ! i)
                   (rolling_mean 60 1 res ! i)
                   (rolling_mean 7 1 sp ! i) (rolling_mean 30 1 sp ! i)
                   (rolling_mean 60 1 sp ! i))))
           [0..<length t])"

text \<open>\<open>fetch_liquidity_data\<close>: the five fetches, one after the other, then the frame, or
  the exception that building it raises. The second component collects the error lines
  shown. The name given for the reserves is a Korean label in the source, written
  \<open>Reserves\<close> here.\<close>

definition fetch_liquidity_data ::
  "provider \<Rightarrow> date \<Rightarrow> (py_error + frame) \<times> ui_message list" where
  "fetch_liquidity_data fred start_date =
     (let (rp_data, m1) = fetch_data_with_ffill fred ''RPONTSYD'' start_date ''RP (Repo)'';
          (rrp_data, m2) =
             fetch_data_with_ffill fred ''RRPONTSYD'' start_date ''RRP (Reverse Repo)'';
          (reserves_data, m3) =
             fetch_data_with_ffill fred ''WRESBAL'' start_date ''Reserves'';
          (sofr_data, m4) = fetch_data_with_ffill fred ''SOFR'' start_date ''SOFR'';
          (iorb_data, m5) = fetch_data_with_ffill fred ''IORB'' start_date ''IORB'';
          df = DataFrame rp_data rrp_data reserves_data sofr_data iorb_data;
          df = frame_ffill df
      in (case from_start start_date df of
            Inl e \<Rightarrow> Inl e
          | Inr df \<Rightarrow> Inr (add_columns df),
          m1 @ m2 @ m3 @ m4 @ m5))"

text \<open>The data load of \<open>main\<close>: an exception of \<open>fetch_liquidity_data\<close> and an empty frame
  each end the render with an error line; otherwise the page goes on with the frame.\<close>

datatype load_result = Load_failed py_error | No_data | Loaded frame

definition load_data :: "provider \<Rightarrow> date \<Rightarrow> load_result" where
  "load_data fred start_date =
     (case fst (fetch_liquidity_data fred start_date) of
        Inl e \<Rightarrow> Load_failed e
      | Inr df \<Rightarrow> if df = [] then No_data else Loaded df)"

section \<open>The specification's reading\<close>

text \<open>
  The threshold tables as the specification words them: the bands of an indicator from
  the most severe to the least severe, the first band whose condition holds deciding the
  level, and the ordinal score of a level.
\<close>

fun first_match :: "(bool \<times> level) list \<Rightarrow> level" where
  "first_match [] = Normal"
| "first_match ((c, l) # bands) = (if c then l else first_match bands)"

fun ordinal :: "level \<Rightarrow> int" where
  "ordinal Danger = 0"
| "ordinal Warning = 1"
| "ordinal Caution = 2"
| "ordinal Normal = 3"

definition classify :: "(bool \<times> level) list \<Rightarrow> level \<times> int" where
  "classify bands = (first_match bands, ordinal (first_match bands))"

definition RP_bands :: "fval \<Rightarrow> (bool \<times> level) list" where
  "RP_bands v = [(fgt v (Fin 50), Danger), (fgt v (Fin 30), Warning), (fgt v (Fin 20), Caution)]"

definition RRP_bands :: "fval \<Rightarrow> (bool \<times> level) list" where
  "RRP_bands v =
     [(flt v (Fin 100), Danger), (flt v (Fin 200), Warning), (flt v (Fin 300), Caution)]"

definition Reserves_bands :: "fval \<Rightarrow> fval \<Rightarrow> (bool \<times> level) list" where
  "Reserves_bands v change =
     [(flt v (Fin 3000), Danger), (flt v (Fin 3200), Warning),
      (flt change (Fin (- 5)), Caution)]"

definition Spread_bands :: "fval \<Rightarrow> (bool \<times> level) list" where
  "Spread_bands v =
     [(fgt v (Fin 100), Danger), (fgt v (Fin 20), Warning), (fgt v (Fin 10), Caution)]"

text \<open>The overall tier as a step function of the composite score, from the top down.\<close>

definition tier_of_sum :: "int \<Rightarrow> overall_status" where
  "tier_of_sum n =
     (if 10 \<le> n then St_good else if 7 \<le> n then St_caution
      else if 4 \<le> n then St_warning else St_danger)"

text \<open>The latest row of a frame, the level and score that an assessment holds for an
  indicator, and a frame changed in its latest row only.\<close>

definition latest_row :: "frame \<Rightarrow> row" where
  "latest_row df = snd (last df)"

definition levels :: "snapshot \<Rightarrow> (indicator \<times> level \<times> int) list" where
  "levels s = map (\<lambda>(k, st). (k, level st, score st)) (assessments s)"

definition score_of :: "frame \<Rightarrow> indicator \<Rightarrow> int option" where
  "score_of df k =
     (case assess_liquidity_status df of
        Inl e \<Rightarrow> None
      | Inr s \<Rightarrow> map_option score (lookup (assessments s) k))"

definition with_latest :: "(row \<Rightarrow> row) \<Rightarrow> frame \<Rightarrow> frame" where
  "with_latest f df = butlast df @ [(fst (last df), f (snd (last df)))]"

text \<open>The entries of the risk list for the indicators at warning or danger, in the order of
  the assessment.\<close>

definition level_entries :: "snapshot \<Rightarrow> signal list" where
  "level_entries a =
     map (\<lambda>(k, st). Indicator_risk k (message st))
       (filter (\<lambda>(k, st). score st \<le> 1) (assessments a))"

text \<open>The value of a column \<open>n\<close> observations before the latest row, when the frame reaches
  that far back.\<close>

definition observations_ago :: "nat \<Rightarrow> 'a list \<Rightarrow> 'a option" where
  "observations_ago n c = (if n < length c then Some (c ! (length c - 1 - n)) else None)"

text \<open>The reserve change as the specification words it: against the value thirty
  observations before the latest row, and 0 when there is none.\<close>

definition change_30_observations_ago :: "frame \<Rightarrow> fval" where
  "change_30_observations_ago df =
     (case observations_ago 30 (map (Reserves \<circ> snd) df) of
        Some old \<Rightarrow> pct_change (Reserves (latest_row df)) old
      | None \<Rightarrow> Fin 0)"

text \<open>
  The moving averages as the specification words them. \<open>trailing_mean w c k\<close> is the plain
  mean of the most recent \<open>min k w\<close> of the first \<open>k\<close> values of a column;
  \<open>leading_mean w c k\<close> is the plain mean of the first \<open>min k w\<close> values. The tracked
  quantities come with their three moving-average columns.
\<close>

definition trailing_mean :: "nat \<Rightarrow> fval list \<Rightarrow> nat \<Rightarrow> fval" where
  "trailing_mean w c k =
     Fin (sum_list (map the_fin (drop (k - min k w) (take k c))) / real (min k w))"

definition leading_mean :: "nat \<Rightarrow> fval list \<Rightarrow> nat \<Rightarrow> fval" where
  "leading_mean w c k = Fin (sum_list (map the_fin (take (min k w) c)) / real (min k w))"

text \<open>The plain mean of the values present in a list, NaN when none is present: the
  present values are added up and counted one by one.\<close>

fun tally :: "fval list \<Rightarrow> real \<times> nat" where
  "tally [] = (0, 0)"
| "tally (Fin a # xs) = (a + fst (tally xs), Suc (snd (tally xs)))"
| "tally (x # xs) = tally xs"

definition present_mean :: "fval list \<Rightarrow> fval" where
  "present_mean xs =
     (if snd (tally xs) = 0 then NaN else Fin (fst (tally xs) / real (snd (tally xs))))"

text \<open>What a moving average of window \<open>w\<close> must be at row \<open>k\<close> (counted from 1) of a column:
  the mean of the values present among the most recent \<open>min k w\<close> rows, NaN exactly when
  none is present there; when the first \<open>k\<close> values are all present, the trailing mean;
  and while \<open>k\<close> does not exceed the window, the mean of all the first \<open>k\<close> values.\<close>

definition ma_law :: "nat \<Rightarrow> fval list \<Rightarrow> nat \<Rightarrow> fval \<Rightarrow> bool" where
  "ma_law w c k v \<longleftrightarrow>
     v = present_mean (drop (k - min k w) (take k c))
     \<and> is_nan v = (\<not> list_ex is_finite (drop (k - min k w) (take k c)))
     \<and> (list_all is_finite (take k c) \<longrightarrow>
          v = trailing_mean w c k \<and> (k \<le> w \<longrightarrow> v = leading_mean w c k))"

definition tracked ::
  "((raw_row \<Rightarrow> fval) \<times> (row \<Rightarrow> fval) \<times> (row \<Rightarrow> fval) \<times> (row \<Rightarrow> fval)) list" where
  "tracked =
     [(RP, RP_MA7, RP_MA30, RP_MA60),
      (RRP, RRP_MA7, RRP_MA30, RRP_MA60),
      (Reserves, Reserves_MA7, Reserves_MA30, Reserves_MA60),
      (spread_of, Spread_bps_MA7, Spread_bps_MA30, Spread_bps_MA60)]"

text \<open>
  The fetches as the specification words them: the series that a fetch leaves for the
  frame (empty when the provider fails), the observations that the provider gave, and the
  warnings of a list of fetches, one for each failure, with the name of the series.
\<close>

definition fetched :: "provider \<Rightarrow> string \<Rightarrow> date \<Rightarrow> series" where
  "fetched fred series_id start_date =
     (case fred series_id start_date of Inl e \<Rightarrow> [] | Inr data \<Rightarrow> series_ffill data)"

definition observations :: "provider \<Rightarrow> string \<Rightarrow> date \<Rightarrow> series" where
  "observations fred series_id start_date =
     (case fred series_id start_date of Inl e \<Rightarrow> [] | Inr data \<Rightarrow> data)"

definition warnings :: "provider \<Rightarrow> date \<Rightarrow> (string \<times> string) list \<Rightarrow> ui_message list" where
  "warnings fred start_date ids =
     concat (map (\<lambda>(series_id, name).
        case fred series_id start_date of Inl e \<Rightarrow> [Fetch_failed name e] | Inr data \<Rightarrow> [])
      ids)"

text \<open>A series in date order with one observation for a date; and the most recent
  observation present in such a series at or before a date, NaN when there is none.\<close>

definition chronological :: "series \<Rightarrow> bool" where
  "chronological s \<longleftrightarrow> sorted (map fst s) \<and> distinct (map fst s)"

definition carry :: "fval \<Rightarrow> fval list \<Rightarrow> fval" where
  "carry p xs = fold (\<lambda>x acc. if is_nan x then acc else x) xs p"

definition most_recent :: "series \<Rightarrow> date \<Rightarrow> fval" where
  "most_recent s d = carry NaN (map snd (filter (\<lambda>(t, v). t \<le> d) s))"

text \<open>The same, said of a value: \<open>v\<close> is the value of an observation present at or before
  \<open>d\<close> that no other such observation comes after; missing when there is no such
  observation.\<close>

definition latest_present :: "series \<Rightarrow> date \<Rightarrow> fval \<Rightarrow> bool" where
  "latest_present s d v \<longleftrightarrow>
     (if \<exists>(t, u) \<in> set s. t \<le> d \<and> \<not> is_nan u
      then \<exists>(t, u) \<in> set s. u = v \<and> t \<le> d \<and> \<not> is_nan u
             \<and> (\<forall>(t', u') \<in> set s. t' \<le> d \<and> \<not> is_nan u' \<longrightarrow> t' \<le> t)
      else is_nan v)"

text \<open>The five series of the pipeline, and the dates of the observations the provider gave
  for them, in the order of the columns.\<close>

definition series_ids :: "string list" where
  "series_ids = [''RPONTSYD'', ''RRPONTSYD'', ''WRESBAL'', ''SOFR'', ''IORB'']"

definition raw_columns :: "(string \<times> (row \<Rightarrow> fval)) list" where
  "raw_columns =
     [(''RPONTSYD'', RP), (''RRPONTSYD'', RRP), (''WRESBAL'', Reserves), (''SOFR'', SOFR),
      (''IORB'', IORB)]"

definition observed_dates :: "provider \<Rightarrow> date \<Rightarrow> date list" where
  "observed_dates fred start_date =
     concat (map (\<lambda>series_id. map fst (observations fred series_id start_date)) series_ids)"

section \<open>Example frames\<close>

text \<open>Rows with quiet values in every column but the one an example is about.\<close>

definition quiet :: raw_row where
  "quiet = \<lparr>RP = Fin 5, RRP = Fin 350, Reserves = Fin 3800, SOFR = Fin 4.35, IORB = Fin 4.30\<rparr>"

definition days :: "nat \<Rightarrow> nat \<Rightarrow> raw_row \<Rightarrow> (date \<times> raw_row) list" where
  "days a n r = map (\<lambda>i. (int i, r)) [a..<a + n]"

text \<open>Thirty rows with reserves at 3800, then a latest row at 3500.\<close>

definition falling_reserves :: frame where
  "falling_reserves = add_columns (days 0 30 quiet @ days 30 1 (quiet\<lparr>Reserves := Fin 3500\<rparr>))"

text \<open>Thirty-one rows of the specification's example: primary volume 55, reverse volume
  350, reserves 3100, spread 5. The second frame reaches the same sum with other levels.\<close>

definition mixed_levels :: frame where
  "mixed_levels = add_columns (days 0 31 (quiet\<lparr>RP := Fin 55, Reserves := Fin 3100\<rparr>))"

definition wide_spread :: frame where
  "wide_spread = add_columns (days 0 31 (quiet\<lparr>Reserves := Fin 3100, SOFR := Fin 5.40\<rparr>))"

text \<open>One row with reserves at 3800, then thirty rows at 3500: the drop lies thirty
  observations before the latest row.\<close>

definition late_drop :: frame where
  "late_drop = add_columns (days 0 1 quiet @ days 1 30 (quiet\<lparr>Reserves := Fin 3500\<rparr>))"

text \<open>Ten rows, the last with reserves fallen to 3500.\<close>

definition short_history :: frame where
  "short_history = add_columns (days 0 9 quiet @ days 9 1 (quiet\<lparr>Reserves := Fin 3500\<rparr>))"

text \<open>Thirty rows, the first with reserves at 0.\<close>

definition zero_reference :: frame where
  "zero_reference =
     add_columns (days 0 1 (quiet\<lparr>Reserves := Fin 0\<rparr>) @ days 1 29 (quiet\<lparr>Reserves := Fin 3500\<rparr>))"


text \<open>Three rows: too few for a seven-row change. In the second frame the primary volume
  is at 55 throughout.\<close>

definition three_days :: frame where
  "three_days = add_columns (days 0 3 quiet)"

definition three_days_danger :: frame where
  "three_days_danger = add_columns (days 0 3 (quiet\<lparr>RP := Fin 55\<rparr>))"

text \<open>Three rows with primary volumes 3, 6 and 12; and eight rows with a primary volume of
  70 in the first and 0 in the seven after.\<close>

definition three_observations :: "(date \<times> raw_row) list" where
  "three_observations =
     [(0, quiet\<lparr>RP := Fin 3\<rparr>), (1, quiet\<lparr>RP := Fin 6\<rparr>), (2, quiet\<lparr>RP := Fin 12\<rparr>)]"

definition eight_rows :: "(date \<times> raw_row) list" where
  "eight_rows = days 0 1 (quiet\<lparr>RP := Fin 70\<rparr>) @ days 1 7 (quiet\<lparr>RP := Fin 0\<rparr>)"

text \<open>
  Providers for the examples. With the first, every series has observations: the primary
  volume has one before the start date and a missing one, and the reserves start a day
  late. With the second the reverse volume fails; with the third the administered rate
  has no observation.
\<close>

definition rates_fred :: provider where
  "rates_fred series_id start_date =
     (if series_id = ''RPONTSYD'' then Inr [(0, Fin 5), (1, NaN), (2, Fin 6), (4, Fin 7)]
      else if series_id = ''RRPONTSYD'' then Inr [(1, Fin 350)]
      else if series_id = ''WRESBAL'' then Inr [(2, Fin 3500), (3, Fin 3400)]
      else if series_id = ''SOFR'' then Inr [(1, Fin 4.3125), (2, Fin 4.375)]
      else if series_id = ''IORB'' then Inr [(1, Fin 4.25)]
      else Inl Unknown_series)"

definition example_fred :: provider where
  "example_fred series_id start_date =
     (if series_id = ''RRPONTSYD'' then Inl Rate_limit else rates_fred series_id start_date)"

definition no_iorb_fred :: provider where
  "no_iorb_fred series_id start_date =
     (if series_id = ''IORB'' then Inr [] else rates_fred series_id start_date)"

text \<open>Thirty-one rows with reserves at 3500 in the first, at 3800 in the twenty-nine after,
  and at 3500 in the latest: 3800 stands in the thirtieth row from the end, 3500 thirty
  observations before the latest row.\<close>

definition thirtieth_from_end :: frame where
  "thirtieth_from_end =
     add_columns (days 0 1 (quiet\<lparr>Reserves := Fin 3500\<rparr>) @ days 1 29 quiet
                  @ days 30 1 (quiet\<lparr>Reserves := Fin 3500\<rparr>))"


text \<open>Four rows whose reserves are missing in the first: the rows of the frame that the
  first provider gives from day 1.\<close>

definition late_start :: "(date \<times> raw_row) list" where
  "late_start =
     [(1, \<lparr>RP = Fin 5, RRP = Fin 350, Reserves = NaN, SOFR = Fin 4.3125, IORB = Fin 4.25\<rparr>),
      (2, \<lparr>RP = Fin 6, RRP = Fin 350, Reserves = Fin 3500, SOFR = Fin 4.375, IORB = Fin 4.25\<rparr>),
      (3, \<lparr>RP = Fin 6, RRP = Fin 350, Reserves = Fin 3400, SOFR = Fin 4.375, IORB = Fin 4.25\<rparr>),
      (4, \<lparr>RP = Fin 7, RRP = Fin 350, Reserves = Fin 3400, SOFR = Fin 4.375, IORB = Fin 4.25\<rparr>)]"

section \<open>Verification\<close>


lemmas WARNING_LEVELS =
  RP_normal_def RP_warning_def RP_danger_def RRP_danger_def RRP_warning_def RRP_normal_def
  Reserves_danger_def Reserves_warning_def Spread_normal_def Spread_warning_def
  Spread_danger_def

lemma iloc_last: "xs \<noteq> [] \<Longrightarrow> iloc xs (- 1) = Inr (last xs)"
  by (cases xs rule: rev_cases) (simp_all add: iloc_def nth_append)

lemma iloc_back: "0 < k \<Longrightarrow> k \<le> length xs \<Longrightarrow> iloc xs (- int k) = Inr (xs ! (length xs - k))"
  by (simp add: iloc_def nat_diff_distrib' of_nat_diff)

lemma iloc_back_numeral:
  "numeral k \<le> length xs \<Longrightarrow> iloc xs (- numeral k) = Inr (xs ! (length xs - numeral k))"
  using iloc_back [of "numeral k" xs] by simp

lemma res_change_30d_eq:
  "res_change_30d df l =
     Inr (if 30 \<le> length df
          then pct_change (Reserves l) (Reserves (snd (df ! (length df - 30))))
          else Fin 0)"
  by (simp add: res_change_30d_def iloc_back_numeral)

lemma assess_nonempty:
  assumes "df \<noteq> []"
  shows "assess_liquidity_status df =
     Inr (let latest = latest_row df;
              change = (if 30 \<le> length df
                        then pct_change (Reserves latest) (Reserves (snd (df ! (length df - 30))))
                        else Fin 0);
              a = [(K_RP, rp_status (RP latest)),
                   (K_RRP, rrp_status (RRP latest)),
                   (K_Reserves, res_status (Reserves latest) change),
                   (K_Spread, spread_status (Spread_bps latest))]
          in \<lparr>assessments = a, overall = overall_of (total_score a),
              latest_values =
                \<lparr>lv_RP = RP latest, lv_RRP = RRP latest,
                 lv_Reserves = Reserves latest, lv_Spread = Spread_bps latest,
                 lv_SOFR = SOFR latest, lv_IORB = IORB latest\<rparr>,
              latest_date = fst (last df)\<rparr>)"
  using assms
  by (simp add: assess_liquidity_status_def iloc_last res_change_30d_eq latest_row_def
      Let_def split: prod.splits)

lemma length_add_columns: "length (add_columns t) = length t"
  by (simp add: add_columns_def Let_def)

lemma add_columns_nth:
  assumes "i < length t"
  shows "fst (add_columns t ! i) = fst (t ! i)"
    and "RP (snd (add_columns t ! i)) = RP (snd (t ! i))"
    and "RRP (snd (add_columns t ! i)) = RRP (snd (t ! i))"
    and "Reserves (snd (add_columns t ! i)) = Reserves (snd (t ! i))"
    and "SOFR (snd (add_columns t ! i)) = SOFR (snd (t ! i))"
    and "IORB (snd (add_columns t ! i)) = IORB (snd (t ! i))"
    and "Spread_bps (snd (add_columns t ! i)) = spread_of (snd (t ! i))"
  using assms by (simp_all add: add_columns_def Let_def raw_row.defs row.defs)

lemma add_columns_last:
  assumes "t \<noteq> []"
  shows "fst (last (add_columns t)) = fst (last t)"
    and "RP (latest_row (add_columns t)) = RP (snd (last t))"
    and "RRP (latest_row (add_columns t)) = RRP (snd (last t))"
    and "Reserves (latest_row (add_columns t)) = Reserves (snd (last t))"
    and "SOFR (latest_row (add_columns t)) = SOFR (snd (last t))"
    and "IORB (latest_row (add_columns t)) = IORB (snd (last t))"
    and "Spread_bps (latest_row (add_columns t)) = spread_of (snd (last t))"
proof -
  have n: "length t - 1 < length t" using assms by (cases t) simp_all
  have l: "last (add_columns t) = add_columns t ! (length t - 1)"
    using assms by (metis last_conv_nth length_add_columns length_0_conv)
  have l': "last t = t ! (length t - 1)" using assms by (simp add: last_conv_nth)
  show "fst (last (add_columns t)) = fst (last t)"
    and "RP (latest_row (add_columns t)) = RP (snd (last t))"
    and "RRP (latest_row (add_columns t)) = RRP (snd (last t))"
    and "Reserves (latest_row (add_columns t)) = Reserves (snd (last t))"
    and "SOFR (latest_row (add_columns t)) = SOFR (snd (last t))"
    and "IORB (latest_row (add_columns t)) = IORB (snd (last t))"
    and "Spread_bps (latest_row (add_columns t)) = spread_of (snd (last t))"
    unfolding latest_row_def l l' using add_columns_nth [OF n] by simp_all
qed

lemma add_columns_Nil_iff: "add_columns t = [] \<longleftrightarrow> t = []"
  using length_add_columns [of t] by (metis length_0_conv)

lemma length_days: "length (days a n r) = n"
  by (simp add: days_def)

lemma days_nth: "i < n \<Longrightarrow> days a n r ! i = (int (a + i), r)"
  by (simp add: days_def)

lemma days_Nil_iff: "days a n r = [] \<longleftrightarrow> n = 0"
  by (auto simp add: days_def)

lemma last_days: "0 < n \<Longrightarrow> last (days a n r) = (int (a + n - 1), r)"
  by (simp add: days_def last_map last_upt)


lemmas example_eval =
  assess_nonempty add_columns_Nil_iff days_Nil_iff Let_def
  add_columns_last length_add_columns length_days add_columns_nth last_days days_nth nth_append
  quiet_def spread_of_def pct_change_def levels_def
  rp_status_def rrp_status_def res_status_def spread_status_def WARNING_LEVELS fgt_def

lemma classify_rp: "(level (rp_status v), score (rp_status v)) = classify (RP_bands v)"
  by (simp add: rp_status_def classify_def RP_bands_def WARNING_LEVELS)

lemma classify_rrp: "(level (rrp_status v), score (rrp_status v)) = classify (RRP_bands v)"
  by (simp add: rrp_status_def classify_def RRP_bands_def WARNING_LEVELS)

lemma classify_res:
  "(level (res_status v c), score (res_status v c)) = classify (Reserves_bands v c)"
  by (simp add: res_status_def classify_def Reserves_bands_def WARNING_LEVELS)

lemma classify_spread:
  "(level (spread_status v), score (spread_status v)) = classify (Spread_bands v)"
  by (simp add: spread_status_def classify_def Spread_bands_def WARNING_LEVELS)

lemma res_caution:
  "fge v (Fin 3200) \<Longrightarrow> flt c (Fin (- 5)) \<Longrightarrow>
   res_status v c = \<lparr>level = Caution, score = 2, message = Reserves_sharp_drop c\<rparr>"
  by (cases v) (auto simp add: res_status_def WARNING_LEVELS fge_def fle_def)

lemma score_range:
  "0 \<le> score (rp_status v) \<and> score (rp_status v) \<le> 3"
  "0 \<le> score (rrp_status v) \<and> score (rrp_status v) \<le> 3"
  "0 \<le> score (res_status v c) \<and> score (res_status v c) \<le> 3"
  "0 \<le> score (spread_status v) \<and> score (spread_status v) \<le> 3"
  by (simp_all add: rp_status_def rrp_status_def res_status_def spread_status_def)

lemma overall_of_fields:
  "o_score (overall_of n) = n" "o_status (overall_of n) = tier_of_sum n"
  "o_max_score (overall_of n) = 12"
  by (simp_all add: overall_of_def tier_of_sum_def)

text \<open>
  Claim C2. On every frame with a row, the composite score is the sum of the four
  ordinal scores and lies between 0 and 12; the overall status is the step function of
  that sum (good from 10, caution from 7, warning from 4, danger below), and the whole
  overall block is the same for two assessments with the same sum.
\<close>

theorem composite_score_is_sum:
  assumes "df \<noteq> []" and "df' \<noteq> []"
  shows "\<exists>s s' a b c d.
     assess_liquidity_status df = Inr s \<and> assess_liquidity_status df' = Inr s'
     \<and> map (score \<circ> snd) (assessments s) = [a, b, c, d]
     \<and> o_score (overall s) = a + b + c + d
     \<and> 0 \<le> o_score (overall s) \<and> o_score (overall s) \<le> 12
     \<and> o_status (overall s) = tier_of_sum (a + b + c + d)
     \<and> (total_score (assessments s') = a + b + c + d \<longrightarrow> overall s' = overall s)"
proof -
  obtain s where s: "assess_liquidity_status df = Inr s"
    using assess_nonempty [OF assms(1)] by blast
  obtain s' where s': "assess_liquidity_status df' = Inr s'"
    using assess_nonempty [OF assms(2)] by blast
  have o': "overall s' = overall_of (total_score (assessments s'))"
    using s' by (simp add: assess_nonempty [OF assms(2)] Let_def) auto
  define l where "l = latest_row df"
  define ch where "ch = (if 30 \<le> length df
       then pct_change (Reserves l) (Reserves (snd (df ! (length df - 30)))) else Fin 0)"
  define a where "a = score (rp_status (RP l))"
  define b where "b = score (rrp_status (RRP l))"
  define c where "c = score (res_status (Reserves l) ch)"
  define d where "d = score (spread_status (Spread_bps l))"
  have sc: "map (score \<circ> snd) (assessments s) = [a, b, c, d]"
    using s by (auto simp add: assess_nonempty [OF assms(1)] Let_def a_def b_def c_def d_def
        l_def ch_def)
  then have tot: "total_score (assessments s) = a + b + c + d"
    by (simp add: total_score_def)
  have o: "overall s = overall_of (a + b + c + d)"
    using s tot by (auto simp add: assess_nonempty [OF assms(1)] Let_def)
  have rng: "0 \<le> a + b + c + d \<and> a + b + c + d \<le> 12"
    using score_range(1) [of "RP l"] score_range(2) [of "RRP l"]
      score_range(3) [of "Reserves l" ch] score_range(4) [of "Spread_bps l"]
    unfolding a_def b_def c_def d_def by linarith
  show ?thesis
    using s s' sc o o' rng by (auto simp add: overall_of_fields)
qed

theorem composite_score_is_sum_witness:
  "mixed_levels \<noteq> [] \<and> wide_spread \<noteq> []
   \<and> (\<exists>s s'. assess_liquidity_status mixed_levels = Inr s
         \<and> assess_liquidity_status wide_spread = Inr s'
         \<and> levels s = [(K_RP, Danger, 0), (K_RRP, Normal, 3),
                        (K_Reserves, Warning, 1), (K_Spread, Normal, 3)]
         \<and> levels s' = [(K_RP, Normal, 3), (K_RRP, Normal, 3),
                         (K_Reserves, Warning, 1), (K_Spread, Danger, 0)]
         \<and> o_score (overall s) = 7 \<and> o_status (overall s) = St_caution
         \<and> total_score (assessments s') = 7
         \<and> overall s' = overall s)"
proof -
  have ne: "mixed_levels \<noteq> []" "wide_spread \<noteq> []"
    by (simp_all add: mixed_levels_def wide_spread_def add_columns_Nil_iff days_Nil_iff)
  obtain s where s: "assess_liquidity_status mixed_levels = Inr s"
    using assess_nonempty [OF ne(1)] by blast
  obtain s' where s': "assess_liquidity_status wide_spread = Inr s'"
    using assess_nonempty [OF ne(2)] by blast
  have l: "levels s = [(K_RP, Danger, 0), (K_RRP, Normal, 3),
                        (K_Reserves, Warning, 1), (K_Spread, Normal, 3)]"
    using s unfolding mixed_levels_def by (auto simp add: example_eval)
  have l': "levels s' = [(K_RP, Normal, 3), (K_RRP, Normal, 3),
                         (K_Reserves, Warning, 1), (K_Spread, Danger, 0)]"
    using s' unfolding wide_spread_def by (auto simp add: example_eval)
  have sc: "map (score \<circ> snd) (assessments s) = [0, 3, 1, 3]"
    using l by (auto simp add: levels_def)
  have t': "total_score (assessments s') = 7"
    using l' by (auto simp add: levels_def total_score_def)
  from composite_score_is_sum [OF ne] s s' sc t'
  have "o_score (overall s) = 7 \<and> o_status (overall s) = St_caution \<and> overall s' = overall s"
    by (auto simp add: tier_of_sum_def)
  with ne s s' l l' t' show ?thesis by blast
qed

text \<open>
  Claim C3. The seven-row changes test their reference against 0; the reserve change
  does not. On thirty rows whose first holds reserves of 0 and whose latest holds 3500,
  the reference is 0 and the change is an infinity, which the message carries.
\<close>

theorem reserve_change_zero_reference:
  "iloc (map (Reserves \<circ> snd) zero_reference) (- 30) = Inr (Fin 0)
   \<and> res_change_30d zero_reference (latest_row zero_reference) = Inr PInf
   \<and> (\<exists>s. assess_liquidity_status zero_reference = Inr s
         \<and> lookup (assessments s) K_Reserves =
             Some \<lparr>level = Normal, score = 3, message = Reserves_stable PInf\<rparr>)"
proof -
  have len: "length zero_reference = 30"
    by (simp add: zero_reference_def length_add_columns length_days)
  have ref: "Reserves (snd (zero_reference ! 0)) = Fin 0"
    by (simp add: zero_reference_def length_days add_columns_nth days_nth nth_append quiet_def)
  have latest: "Reserves (latest_row zero_reference) = Fin 3500"
    by (simp add: zero_reference_def add_columns_last days_Nil_iff last_days)
  have ne: "zero_reference \<noteq> []" using len by auto
  have 1: "iloc (map (Reserves \<circ> snd) zero_reference) (- 30) = Inr (Fin 0)"
    using ne by (simp add: iloc_back_numeral len ref nth_map)
  have 2: "res_change_30d zero_reference (latest_row zero_reference) = Inr PInf"
    by (simp add: res_change_30d_eq len ref latest pct_change_def)
  have 3: "\<exists>s. assess_liquidity_status zero_reference = Inr s
         \<and> lookup (assessments s) K_Reserves =
             Some \<lparr>level = Normal, score = 3, message = Reserves_stable PInf\<rparr>"
    by (simp add: assess_nonempty [OF ne] Let_def len ref latest pct_change_def lookup_def
        res_status_def WARNING_LEVELS)
  from 1 2 3 show ?thesis by blast
qed

lemma change_7d_zero_guard:
  assumes "7 \<le> length c" and "c ! (length c - 7) = Fin 0"
  shows "change_7d c = Inr (Fin 0)"
  using assms by (simp add: change_7d_def iloc_back_numeral fne_def)

lemma observations_ago_29:
  "observations_ago 29 c = (if 30 \<le> length c then Some (c ! (length c - 30)) else None)"
  by (auto simp add: observations_ago_def)

lemma res_not_caution:
  "level (res_status v (Fin 0)) \<noteq> Caution" "Caution \<noteq> level (res_status v (Fin 0))"
  by (simp_all add: res_status_def)

text \<open>
  Claim C4, as the code has it. The reference of the reserve change is the thirtieth row
  from the end, the latest row counted: twenty-nine observations before the latest row.
  With fewer than thirty rows the change is 0 and the reserves are not at caution.
\<close>

theorem reserve_change_reference:
  assumes "df \<noteq> []"
  shows "\<exists>s change.
     assess_liquidity_status df = Inr s
     \<and> res_change_30d df (latest_row df) = Inr change
     \<and> (case observations_ago 29 (map (Reserves \<circ> snd) df) of
          Some old \<Rightarrow> 30 \<le> length df \<and> change = pct_change (Reserves (latest_row df)) old
        | None \<Rightarrow> length df < 30 \<and> change = Fin 0
                 \<and> (K_Reserves, Caution, 2) \<notin> set (levels s)
                 \<and> (\<forall>st. lookup (assessments s) K_Reserves = Some st \<longrightarrow> level st \<noteq> Caution))"
proof (cases "30 \<le> length df")
  case True
  then have "length df - 30 < length df" using assms by (cases df) auto
  with True show ?thesis
    by (simp add: assess_nonempty [OF assms] res_change_30d_eq observations_ago_29 Let_def)
next
  case False
  then show ?thesis
    by (auto simp add: assess_nonempty [OF assms] res_change_30d_eq observations_ago_29 Let_def
        levels_def lookup_def res_not_caution)
qed

theorem reserve_change_reference_witness:
  "falling_reserves \<noteq> [] \<and> short_history \<noteq> []
   \<and> observations_ago 29 (map (Reserves \<circ> snd) falling_reserves) = Some (Fin 3800)
   \<and> res_change_30d falling_reserves (latest_row falling_reserves) = Inr (Fin (- 150 / 19))
   \<and> observations_ago 29 (map (Reserves \<circ> snd) short_history) = None
   \<and> res_change_30d short_history (latest_row short_history) = Inr (Fin 0)
   \<and> (\<exists>s. assess_liquidity_status short_history = Inr s
         \<and> lookup (assessments s) K_Reserves =
             Some \<lparr>level = Normal, score = 3, message = Reserves_stable (Fin 0)\<rparr>)"
proof -
  have ne: "falling_reserves \<noteq> []" "short_history \<noteq> []"
    by (simp_all add: falling_reserves_def short_history_def add_columns_Nil_iff days_Nil_iff)
  have latest: "Reserves (latest_row falling_reserves) = Fin 3500"
    by (simp add: falling_reserves_def add_columns_last days_Nil_iff last_days)
  have a1: "observations_ago 29 (map (Reserves \<circ> snd) falling_reserves) = Some (Fin 3800)"
    by (simp add: observations_ago_29)
       (simp add: falling_reserves_def length_add_columns length_days
        add_columns_nth days_nth nth_append quiet_def)
  have a2: "observations_ago 29 (map (Reserves \<circ> snd) short_history) = None"
    by (simp add: observations_ago_29)
       (simp add: short_history_def length_add_columns length_days)
  from reserve_change_reference [OF ne(1)] a1 latest
  have c1: "res_change_30d falling_reserves (latest_row falling_reserves) = Inr (Fin (- 150 / 19))"
    by (auto simp add: pct_change_def)
  from reserve_change_reference [OF ne(2)] a2
  have c2: "res_change_30d short_history (latest_row short_history) = Inr (Fin 0)"
    by auto
  have c3: "\<exists>s. assess_liquidity_status short_history = Inr s
         \<and> lookup (assessments s) K_Reserves =
             Some \<lparr>level = Normal, score = 3, message = Reserves_stable (Fin 0)\<rparr>"
    unfolding short_history_def
    by (simp add: example_eval lookup_def)
  from ne a1 a2 c1 c2 c3 show ?thesis by blast
qed

text \<open>
  Against claim C4 as it is worded: in a frame of thirty-one rows whose reserves stand at
  3800 thirty observations before the latest row and at 3500 from the next row on, the
  worded change is -150/19 and would put the reserves at caution; the code compares with
  the row after, finds a change of 0 and reports normal.
\<close>

theorem reserve_change_reference_counterexample:
  "observations_ago 30 (map (Reserves \<circ> snd) late_drop) = Some (Fin 3800)
   \<and> Reserves (latest_row late_drop) = Fin 3500
   \<and> change_30_observations_ago late_drop = Fin (- 150 / 19)
   \<and> res_change_30d late_drop (latest_row late_drop) = Inr (Fin 0)
   \<and> res_change_30d late_drop (latest_row late_drop)
       \<noteq> Inr (change_30_observations_ago late_drop)
   \<and> score_of late_drop K_Reserves = Some 3"
proof -
  have len: "length late_drop = 31"
    by (simp add: late_drop_def length_add_columns length_days)
  have ne: "late_drop \<noteq> []" using len by auto
  have r0: "Reserves (snd (late_drop ! 0)) = Fin 3800"
    by (simp add: late_drop_def length_days add_columns_nth days_nth nth_append quiet_def)
  have r1: "Reserves (snd (late_drop ! Suc 0)) = Fin 3500"
    by (simp add: late_drop_def length_days add_columns_nth days_nth nth_append quiet_def)
  have latest: "Reserves (latest_row late_drop) = Fin 3500"
    by (simp add: late_drop_def add_columns_last days_Nil_iff last_days)
  have 1: "observations_ago 30 (map (Reserves \<circ> snd) late_drop) = Some (Fin 3800)"
    by (simp add: observations_ago_def len r0)
  have 2: "change_30_observations_ago late_drop = Fin (- 150 / 19)"
    by (simp add: change_30_observations_ago_def 1 latest pct_change_def)
  have 3: "res_change_30d late_drop (latest_row late_drop) = Inr (Fin 0)"
    by (simp add: res_change_30d_eq len r1 latest pct_change_def)
  have 4: "score_of late_drop K_Reserves = Some 3"
    by (simp add: score_of_def assess_nonempty [OF ne] Let_def len r1 latest pct_change_def
        lookup_def res_status_def WARNING_LEVELS)
  from 1 2 3 4 latest show ?thesis by simp
qed

lemma rp_status_mono: "fle v w \<Longrightarrow> score (rp_status w) \<le> score (rp_status v)"
  by (cases v; cases w) (auto simp add: rp_status_def fle_def fgt_def WARNING_LEVELS)

lemma spread_status_mono: "fle v w \<Longrightarrow> score (spread_status w) \<le> score (spread_status v)"
  by (cases v; cases w) (auto simp add: spread_status_def fle_def fgt_def WARNING_LEVELS)

lemma rrp_status_mono: "fle w v \<Longrightarrow> score (rrp_status w) \<le> score (rrp_status v)"
  by (cases v; cases w) (auto simp add: rrp_status_def fle_def fgt_def WARNING_LEVELS)

lemma res_status_mono_fixed:
  "fle w v \<Longrightarrow> score (res_status w c) \<le> score (res_status v c)"
  by (cases v; cases w) (auto simp add: res_status_def fle_def fgt_def WARNING_LEVELS)

lemma scale_below: "(x::real) < - (1 / 20) \<Longrightarrow> x * 100 < - 5"
  by linarith

lemma scale_mono: "(x::real) \<le> y \<Longrightarrow> y * 100 < - 5 \<Longrightarrow> x * 100 < - 5"
  by linarith

lemma neg_ref_below:
  fixes b q :: real
  assumes "3200 \<le> b" "q < 0"
  shows "(b - q) / q * 100 < - 5"
proof -
  have "b - q > - (q / 20)" using assms by simp
  then have "(b - q) / q < - (q / 20) / q"
    using assms(2) divide_strict_right_mono_neg by blast
  also have "- (q / 20) / q = - (1 / 20)" using assms(2) by simp
  finally have "(b - q) / q < - (1 / 20)" .
  then show ?thesis by (rule scale_below)
qed

lemma pct_fin_mono:
  fixes a b q :: real
  assumes "b \<le> a" "3200 \<le> b" "q \<noteq> 0" "(a - q) / q * 100 < - 5"
  shows "(b - q) / q * 100 < - 5"
proof (cases "0 < q")
  case True
  have "(b - q) / q \<le> (a - q) / q"
    using True assms(1) by (simp add: divide_right_mono)
  then show ?thesis using assms(4) by (rule scale_mono)
next
  case False
  then have q: "q < 0" using assms(3) by simp
  show ?thesis using neg_ref_below [OF assms(2) q] .
qed

lemma pct_change_mono:
  assumes "fle w v" "\<not> flt w (Fin 3200)" "flt (pct_change v p) (Fin (- 5))"
  shows "flt (pct_change w p) (Fin (- 5))"
proof (cases p)
  case (Fin q)
  show ?thesis
  proof (cases w)
    case wf: (Fin b)
    then have b: "3200 \<le> b" using assms(2) by simp
    show ?thesis
    proof (cases v)
      case vf: (Fin a)
      then have ab: "b \<le> a" using assms(1) wf by (auto simp add: fle_def)
      show ?thesis
      proof (cases "q = 0")
        case True
        then show ?thesis using assms(3) ab b Fin vf by (simp add: pct_change_def)
      next
        case False
        then show ?thesis
          using assms(3) pct_fin_mono [OF ab b False] Fin vf wf by (simp add: pct_change_def)
      qed
    next
      case PInf
      have neg: "q < 0"
        using assms(3) PInf Fin by (simp add: pct_change_def split: if_splits)
      show ?thesis using neg_ref_below [OF b neg] neg Fin wf by (simp add: pct_change_def)
    next
      case NInf
      then show ?thesis using assms(1) wf by (simp add: fle_def)
    next
      case NaN
      then show ?thesis using assms(1) by (simp add: fle_def)
    qed
  next
    case PInf
    then have "v = PInf" using assms(1) by (cases v) (simp_all add: fle_def)
    then show ?thesis using assms(3) PInf by simp
  next
    case NInf
    then show ?thesis using assms(2) by simp
  next
    case NaN
    then show ?thesis using assms(1) by (simp add: fle_def)
  qed
next
  case PInf
  then show ?thesis using assms(3) by (cases v) (simp_all add: pct_change_def)
next
  case NInf
  then show ?thesis using assms(3) by (cases v) (simp_all add: pct_change_def)
next
  case NaN
  then show ?thesis using assms(3) by (cases v) (simp_all add: pct_change_def)
qed

lemma res_status_mono:
  assumes "fle w v"
  shows "score (res_status w (pct_change w p)) \<le> score (res_status v (pct_change v p))"
proof (cases "flt w (Fin 3200)")
  case True
  have "\<not> flt w (Fin 3000) \<Longrightarrow> \<not> flt v (Fin 3000)"
    using assms by (cases v; cases w; auto simp add: fle_def)
  with True show ?thesis by (auto simp add: res_status_def WARNING_LEVELS)
next
  case False
  have v: "\<not> flt v (Fin 3200)" "\<not> flt v (Fin 3000)" "\<not> flt w (Fin 3000)"
    using False assms by (cases v; cases w; auto simp add: fle_def)+
  show ?thesis
    using False v pct_change_mono [OF assms False, of p]
    by (simp add: res_status_def WARNING_LEVELS)
qed

lemma with_latest_props:
  assumes "df \<noteq> []"
  shows "with_latest f df \<noteq> []"
    and "length (with_latest f df) = length df"
    and "latest_row (with_latest f df) = f (latest_row df)"
    and "i < length df - 1 \<Longrightarrow> with_latest f df ! i = df ! i"
  using assms
  by (simp_all add: with_latest_def latest_row_def nth_append nth_butlast)

lemma score_of_eq:
  assumes "df \<noteq> []"
  shows "score_of df K_RP = Some (score (rp_status (RP (latest_row df))))"
    and "score_of df K_RRP = Some (score (rrp_status (RRP (latest_row df))))"
    and "score_of df K_Spread = Some (score (spread_status (Spread_bps (latest_row df))))"
    and "score_of df K_Reserves =
           Some (score (res_status (Reserves (latest_row df))
             (if 30 \<le> length df
              then pct_change (Reserves (latest_row df)) (Reserves (snd (df ! (length df - 30))))
              else Fin 0)))"
  by (simp_all add: score_of_def assess_nonempty [OF assms] Let_def lookup_def)

lemma score_of_with_latest:
  assumes "df \<noteq> []"
  shows "score_of (with_latest f df) K_RP = Some (score (rp_status (RP (f (latest_row df)))))"
    and "score_of (with_latest f df) K_RRP = Some (score (rrp_status (RRP (f (latest_row df)))))"
    and "score_of (with_latest f df) K_Spread =
           Some (score (spread_status (Spread_bps (f (latest_row df)))))"
    and "score_of (with_latest f df) K_Reserves =
           Some (score (res_status (Reserves (f (latest_row df)))
             (if 30 \<le> length df
              then pct_change (Reserves (f (latest_row df)))
                     (Reserves (snd (df ! (length df - 30))))
              else Fin 0)))"
proof -
  have "30 \<le> length df \<Longrightarrow> with_latest f df ! (length df - 30) = df ! (length df - 30)"
    using with_latest_props(4) [OF assms, of "length df - 30" f] by simp
  then show "score_of (with_latest f df) K_RP = Some (score (rp_status (RP (f (latest_row df)))))"
    and "score_of (with_latest f df) K_RRP = Some (score (rrp_status (RRP (f (latest_row df)))))"
    and "score_of (with_latest f df) K_Spread =
           Some (score (spread_status (Spread_bps (f (latest_row df)))))"
    and "score_of (with_latest f df) K_Reserves =
           Some (score (res_status (Reserves (f (latest_row df)))
             (if 30 \<le> length df
              then pct_change (Reserves (f (latest_row df)))
                     (Reserves (snd (df ! (length df - 30))))
              else Fin 0)))"
    using with_latest_props(1-3) [OF assms, of f]
    by (simp_all add: score_of_eq)
qed

text \<open>
  Claim C5. Take a frame with a row and change its latest row in one column only. A
  primary volume or a spread at least as large as before never has a higher score; a
  reverse volume or a reserve balance at most as large as before never has a higher score
  (the row that the reserve change refers to is not the latest row, and stays).
\<close>

theorem classifier_monotone:
  assumes "df \<noteq> []"
  shows "(fle (RP (latest_row df)) v \<longrightarrow>
           (\<exists>a b. score_of df K_RP = Some a
              \<and> score_of (with_latest (\<lambda>r. r\<lparr>RP := v\<rparr>) df) K_RP = Some b \<and> b \<le> a))
       \<and> (fle (Spread_bps (latest_row df)) v \<longrightarrow>
           (\<exists>a b. score_of df K_Spread = Some a
              \<and> score_of (with_latest (\<lambda>r. r\<lparr>Spread_bps := v\<rparr>) df) K_Spread = Some b \<and> b \<le> a))
       \<and> (fle v (RRP (latest_row df)) \<longrightarrow>
           (\<exists>a b. score_of df K_RRP = Some a
              \<and> score_of (with_latest (\<lambda>r. r\<lparr>RRP := v\<rparr>) df) K_RRP = Some b \<and> b \<le> a))
       \<and> (fle v (Reserves (latest_row df)) \<longrightarrow>
           (\<exists>a b. score_of df K_Reserves = Some a
              \<and> score_of (with_latest (\<lambda>r. r\<lparr>Reserves := v\<rparr>) df) K_Reserves = Some b \<and> b \<le> a))"
  by (simp add: score_of_eq [OF assms] score_of_with_latest [OF assms]
      rp_status_mono spread_status_mono rrp_status_mono res_status_mono res_status_mono_fixed)

theorem classifier_monotone_witness:
  "falling_reserves \<noteq> []
   \<and> fle (RP (latest_row falling_reserves)) (Fin 25)
   \<and> score_of falling_reserves K_RP = Some 3
   \<and> score_of (with_latest (\<lambda>r. r\<lparr>RP := Fin 25\<rparr>) falling_reserves) K_RP = Some 2
   \<and> fle (Spread_bps (latest_row falling_reserves)) (Fin 150)
   \<and> score_of falling_reserves K_Spread = Some 3
   \<and> score_of (with_latest (\<lambda>r. r\<lparr>Spread_bps := Fin 150\<rparr>) falling_reserves) K_Spread = Some 0
   \<and> fle (Fin 150) (RRP (latest_row falling_reserves))
   \<and> score_of falling_reserves K_RRP = Some 3
   \<and> score_of (with_latest (\<lambda>r. r\<lparr>RRP := Fin 150\<rparr>) falling_reserves) K_RRP = Some 1
   \<and> fle (Fin 3100) (Reserves (latest_row falling_reserves))
   \<and> score_of falling_reserves K_Reserves = Some 2
   \<and> score_of (with_latest (\<lambda>r. r\<lparr>Reserves := Fin 3100\<rparr>) falling_reserves) K_Reserves = Some 1"
proof -
  have ne: "falling_reserves \<noteq> []"
    by (simp add: falling_reserves_def add_columns_Nil_iff days_Nil_iff)
  have len: "length falling_reserves = 31"
    by (simp add: falling_reserves_def length_add_columns length_days)
  have ref: "Reserves (snd (falling_reserves ! Suc 0)) = Fin 3800"
    by (simp add: falling_reserves_def length_days add_columns_nth days_nth nth_append quiet_def)
  have l: "RP (latest_row falling_reserves) = Fin 5"
    "RRP (latest_row falling_reserves) = Fin 350"
    "Reserves (latest_row falling_reserves) = Fin 3500"
    "Spread_bps (latest_row falling_reserves) = Fin 5"
    by (simp_all add: falling_reserves_def add_columns_last days_Nil_iff last_days quiet_def
        spread_of_def)
  have h: "fle (RP (latest_row falling_reserves)) (Fin 25)"
    "fle (Spread_bps (latest_row falling_reserves)) (Fin 150)"
    "fle (Fin 150) (RRP (latest_row falling_reserves))"
    "fle (Fin 3100) (Reserves (latest_row falling_reserves))"
    by (simp_all add: l fle_def)
  have before: "score_of falling_reserves K_RP = Some 3"
    "score_of falling_reserves K_Spread = Some 3"
    "score_of falling_reserves K_RRP = Some 3"
    "score_of falling_reserves K_Reserves = Some 2"
    by (simp_all add: score_of_eq [OF ne] l len ref pct_change_def rp_status_def
        rrp_status_def res_status_def spread_status_def WARNING_LEVELS fgt_def)
  have after: "score_of (with_latest (\<lambda>r. r\<lparr>RP := Fin 25\<rparr>) falling_reserves) K_RP = Some 2"
    "score_of (with_latest (\<lambda>r. r\<lparr>Spread_bps := Fin 150\<rparr>) falling_reserves) K_Spread = Some 0"
    "score_of (with_latest (\<lambda>r. r\<lparr>RRP := Fin 150\<rparr>) falling_reserves) K_RRP = Some 1"
    "score_of (with_latest (\<lambda>r. r\<lparr>Reserves := Fin 3100\<rparr>) falling_reserves) K_Reserves = Some 1"
    by (simp_all add: score_of_with_latest [OF ne] l len ref pct_change_def rp_status_def
        rrp_status_def res_status_def spread_status_def WARNING_LEVELS fgt_def)
  from classifier_monotone [OF ne, of "Fin 25"] h(1)
  have "\<exists>a b. score_of falling_reserves K_RP = Some a
      \<and> score_of (with_latest (\<lambda>r. r\<lparr>RP := Fin 25\<rparr>) falling_reserves) K_RP = Some b \<and> b \<le> a"
    by blast
  with ne h before after show ?thesis by simp
qed

lemma assess_shape:
  assumes "assess_liquidity_status df = Inr a"
  shows "\<exists>x1 x2 x3 x4. assessments a =
           [(K_RP, x1), (K_RRP, x2), (K_Reserves, x3), (K_Spread, x4)]"
proof -
  have "df \<noteq> []" using assms by (auto simp add: assess_liquidity_status_def iloc_def)
  from assess_nonempty [OF this] assms show ?thesis by (auto simp add: Let_def)
qed

lemma risk_loop_entries:
  assumes "assessments a = [(K_RP, x1), (K_RRP, x2), (K_Reserves, x3), (K_Spread, x4)]"
  shows "risk_loop (assessments a) [K_RP, K_RRP, K_Reserves, K_Spread] [] = Inr (level_entries a)"
  by (simp add: assms lookup_def level_entries_def)



text \<open>
  Claim C10. On a frame of fewer than seven rows no seven-row change is computed: the
  risk list is exactly the entries of the indicators scored 0 or 1, and the page shows the
  all-clear line exactly when there is no such entry.
\<close>

theorem short_frame_no_abrupt_moves:
  assumes "length df < 7" and "assess_liquidity_status df' = Inr a"
  shows "risk_signals df a = Inr (level_entries a)
     \<and> (show_signals (level_entries a) = [Success_no_signals]) = (level_entries a = [])
     \<and> (\<forall>s \<in> set (level_entries a). \<exists>k m. s = Indicator_risk k m)"
proof -
  obtain x1 x2 x3 x4 where
    "assessments a = [(K_RP, x1), (K_RRP, x2), (K_Reserves, x3), (K_Spread, x4)]"
    using assess_shape [OF assms(2)] by blast
  then have loop: "risk_loop (assessments a) [K_RP, K_RRP, K_Reserves, K_Spread] []
      = Inr (level_entries a)"
    by (rule risk_loop_entries)
  have 1: "risk_signals df a = Inr (level_entries a)"
    unfolding risk_signals_def loop using assms(1) by simp
  have 2: "(show_signals (level_entries a) = [Success_no_signals]) = (level_entries a = [])"
    by (cases "level_entries a") (auto simp add: show_signals_def)
  have 3: "\<forall>s \<in> set (level_entries a). \<exists>k m. s = Indicator_risk k m"
    by (auto simp add: level_entries_def)
  from 1 2 3 show ?thesis by blast
qed

theorem short_frame_no_abrupt_moves_witness:
  "length three_days < 7 \<and> length three_days_danger < 7
   \<and> (\<exists>a b. assess_liquidity_status three_days = Inr a
         \<and> assess_liquidity_status three_days_danger = Inr b
         \<and> risk_signals three_days a = Inr []
         \<and> show_signals [] = [Success_no_signals]
         \<and> risk_signals three_days_danger b = Inr [Indicator_risk K_RP RP_surge]
         \<and> show_signals [Indicator_risk K_RP RP_surge]
             = [Warning_box (Indicator_risk K_RP RP_surge)])"
proof -
  have len: "length three_days < 7" "length three_days_danger < 7"
    by (simp_all add: three_days_def three_days_danger_def length_add_columns length_days)
  have ne: "three_days \<noteq> []" "three_days_danger \<noteq> []"
    by (simp_all add: three_days_def three_days_danger_def add_columns_Nil_iff days_Nil_iff)
  obtain a where a: "assess_liquidity_status three_days = Inr a"
    using assess_nonempty [OF ne(1)] by blast
  obtain b where b: "assess_liquidity_status three_days_danger = Inr b"
    using assess_nonempty [OF ne(2)] by blast
  have ea: "level_entries a = []"
    using a unfolding three_days_def by (auto simp add: example_eval level_entries_def)
  have eb: "level_entries b = [Indicator_risk K_RP RP_surge]"
    using b unfolding three_days_danger_def by (auto simp add: example_eval level_entries_def)
  from short_frame_no_abrupt_moves [OF len(1) a] ea
  have ra: "risk_signals three_days a = Inr []" by simp
  from short_frame_no_abrupt_moves [OF len(2) b] eb
  have rb: "risk_signals three_days_danger b = Inr [Indicator_risk K_RP RP_surge]" by simp
  have sh: "show_signals [] = [Success_no_signals]"
    "show_signals [Indicator_risk K_RP RP_surge] = [Warning_box (Indicator_risk K_RP RP_surge)]"
    by (simp_all add: show_signals_def)
  from len a b ra rb sh show ?thesis by blast
qed

lemma rolling_mean_nth:
  "i < length c \<Longrightarrow> rolling_mean w m c ! i = window_mean m (window w c i)"
  by (simp add: rolling_mean_def)

lemma window_trailing:
  "window w c i = drop (Suc i - min (Suc i) w) (take (Suc i) c)"
proof (cases "w \<le> Suc i")
  case True
  then have "take w (drop (Suc i - w) c) = drop (Suc i - w) (take (Suc i) c)"
    by (simp add: drop_take)
  with True show ?thesis by (simp add: window_def min_def)
next
  case False
  then show ?thesis by (simp add: window_def min_def)
qed

lemma window_mean_finite:
  assumes "\<forall>x \<in> set ws. is_finite x" and "ws \<noteq> []"
  shows "window_mean 1 ws = Fin (sum_list (map the_fin ws) / real (length ws))"
proof -
  have "filter is_finite ws = ws" using assms(1) by (simp add: filter_id_conv)
  moreover have "\<not> length ws < 1" using assms(2) by (cases ws) simp_all
  ultimately show ?thesis by (simp add: window_mean_def Let_def)
qed

lemma window_mean_none:
  assumes "\<forall>x \<in> set ws. \<not> is_finite x"
  shows "window_mean 1 ws = NaN"
proof -
  have "filter is_finite ws = []" using assms by (simp add: filter_empty_conv)
  then show ?thesis by (simp add: window_mean_def)
qed

lemma rolling_mean_trailing:
  assumes "0 < k" and "k \<le> length c" and "0 < w"
    and "\<forall>x \<in> set (take k c). is_finite x"
  shows "rolling_mean w 1 c ! (k - 1) = trailing_mean w c k"
proof -
  obtain i where k: "k = Suc i" using assms(1) by (cases k) simp_all
  have i: "i < length c" using assms(2) k by simp
  let ?ws = "drop (k - min k w) (take k c)"
  have len: "length ?ws = min k w" using assms(2) by (simp add: min_def)
  then have ne: "?ws \<noteq> []" using assms(1,3) by (metis length_0_conv min_less_iff_conj less_numeral_extra(3))
  have fin: "\<forall>x \<in> set ?ws. is_finite x"
    using assms(4) by (meson in_set_dropD)
  have "rolling_mean w 1 c ! (k - 1) = window_mean 1 ?ws"
    using i by (simp add: k rolling_mean_nth window_trailing)
  also have "\<dots> = Fin (sum_list (map the_fin ?ws) / real (length ?ws))"
    using fin ne by (rule window_mean_finite)
  finally show ?thesis by (simp only: len trailing_mean_def)
qed

lemma trailing_mean_expanding:
  "k \<le> w \<Longrightarrow> trailing_mean w c k = Fin (sum_list (map the_fin (take k c)) / real k)"
  by (simp add: trailing_mean_def min_def)

lemma add_columns_ma:
  assumes "i < length t"
  shows "RP_MA7 (snd (add_columns t ! i)) = rolling_mean 7 1 (map (RP \<circ> snd) t) ! i"
    and "RP_MA30 (snd (add_columns t ! i)) = rolling_mean 30 1 (map (RP \<circ> snd) t) ! i"
    and "RP_MA60 (snd (add_columns t ! i)) = rolling_mean 60 1 (map (RP \<circ> snd) t) ! i"
    and "RRP_MA7 (snd (add_columns t ! i)) = rolling_mean 7 1 (map (RRP \<circ> snd) t) ! i"
    and "RRP_MA30 (snd (add_columns t ! i)) = rolling_mean 30 1 (map (RRP \<circ> snd) t) ! i"
    and "RRP_MA60 (snd (add_columns t ! i)) = rolling_mean 60 1 (map (RRP \<circ> snd) t) ! i"
    and "Reserves_MA7 (snd (add_columns t ! i)) = rolling_mean 7 1 (map (Reserves \<circ> snd) t) ! i"
    and "Reserves_MA30 (snd (add_columns t ! i)) = rolling_mean 30 1 (map (Reserves \<circ> snd) t) ! i"
    and "Reserves_MA60 (snd (add_columns t ! i)) = rolling_mean 60 1 (map (Reserves \<circ> snd) t) ! i"
    and "Spread_bps_MA7 (snd (add_columns t ! i)) = rolling_mean 7 1 (map (spread_of \<circ> snd) t) ! i"
    and "Spread_bps_MA30 (snd (add_columns t ! i)) = rolling_mean 30 1 (map (spread_of \<circ> snd) t) ! i"
    and "Spread_bps_MA60 (snd (add_columns t ! i)) = rolling_mean 60 1 (map (spread_of \<circ> snd) t) ! i"
  using assms by (simp_all add: add_columns_def Let_def raw_row.defs row.defs)

lemma carry_simps:
  "carry p [] = p"
  "carry p (x # xs) = carry (if is_nan x then p else x) xs"
  "carry p (xs @ ys) = carry (carry p xs) ys"
  by (simp_all add: carry_def)

lemma carry_nan: "is_nan (carry p xs) \<Longrightarrow> carry p xs = p"
proof (induction xs arbitrary: p)
  case Nil
  then show ?case by (simp add: carry_simps)
next
  case (Cons x xs)
  show ?case
  proof (cases "is_nan x")
    case True
    then show ?thesis using Cons by (simp add: carry_simps)
  next
    case False
    then have "is_nan (carry x xs)" using Cons.prems by (simp add: carry_simps)
    then have "carry x xs = x" by (rule Cons.IH)
    then show ?thesis using False \<open>is_nan (carry x xs)\<close> by simp
  qed
qed

lemma length_ffill_from: "length (ffill_from p xs) = length xs"
  by (induction xs arbitrary: p) (simp_all add: Let_def)

lemma length_ffill: "length (ffill xs) = length xs"
  by (simp add: ffill_def length_ffill_from)

text \<open>The dates of a series after its own forward fill, and its value at a date.\<close>

lemma series_ffill_dates: "map fst (series_ffill s) = map fst s"
  by (simp add: series_ffill_def length_ffill)

lemma filled_lookup:
  assumes "sorted (map fst s)" and "distinct (map fst s)"
  shows "map_of (zip (map fst s) (ffill_from p (map snd s))) d =
     (if d \<in> fst ` set s
      then Some (carry p (map snd (filter (\<lambda>(t, v). t \<le> d) s))) else None)"
  using assms
proof (induction s arbitrary: p)
  case Nil
  then show ?case by simp
next
  case (Cons a s)
  obtain t0 v0 where a: "a = (t0, v0)" by (cases a)
  have later: "\<forall>x \<in> set s. t0 < fst x"
    using Cons.prems by (auto simp add: a order_less_le)
  have s: "sorted (map fst s)" "distinct (map fst s)" using Cons.prems by simp_all
  show ?case
  proof (cases "d = t0")
    case True
    have "filter (\<lambda>(t, v). t \<le> t0) s = []"
      using later by (auto simp add: filter_empty_conv)
    then show ?thesis using True by (simp add: a Let_def carry_simps)
  next
    case False
    show ?thesis
    proof (cases "d \<in> fst ` set s")
      case True
      then have "t0 \<le> d" using later by auto
      then show ?thesis
        using False True Cons.IH [OF s] by (simp add: a Let_def carry_simps)
    next
      case False': False
      then show ?thesis using False Cons.IH [OF s] by (simp add: a Let_def)
    qed
  qed
qed

lemma at_date_filled:
  assumes "chronological s"
  shows "at_date (series_ffill s) d = (if d \<in> fst ` set s then most_recent s d else NaN)"
  using filled_lookup [of s NaN d] assms
  by (simp add: at_date_def series_ffill_def ffill_def most_recent_def chronological_def)

lemma filter_split:
  assumes "sorted (map fst s)" and "lo \<le> d"
  shows "filter (\<lambda>(t, v). t \<le> d) s =
     filter (\<lambda>(t, v). t \<le> lo) s @ filter (\<lambda>(t, v). lo < t \<and> t \<le> d) s"
  using assms(1)
proof (induction s)
  case Nil
  then show ?case by simp
next
  case (Cons a s)
  obtain t0 v0 where a: "a = (t0, v0)" by (cases a)
  have s: "sorted (map fst s)" using Cons.prems by simp
  show ?case
  proof (cases "t0 \<le> lo")
    case True
    then show ?thesis using Cons.IH [OF s] assms(2) by (auto simp add: a)
  next
    case False
    then have "\<forall>x \<in> set (a # s). lo < fst x" using Cons.prems by (auto simp add: a)
    then have "filter (\<lambda>(t, v). t \<le> lo) (a # s) = []"
      and "filter (\<lambda>(t, v). lo < t \<and> t \<le> d) (a # s) = filter (\<lambda>(t, v). t \<le> d) (a # s)"
      by (auto simp add: filter_empty_conv intro!: filter_cong)
    then show ?thesis by simp
  qed
qed

lemma most_recent_step:
  assumes "sorted (map fst s)" and "lo < d"
    and "\<forall>t \<in> fst ` set s. lo < t \<and> t \<le> d \<longrightarrow> t = d"
  shows "most_recent s d = carry (most_recent s lo) (map snd (filter (\<lambda>(t, v). t = d) s))"
proof -
  have "filter (\<lambda>(t, v). lo < t \<and> t \<le> d) s = filter (\<lambda>(t, v). t = d) s"
    using assms(2,3) by (intro filter_cong) (auto simp add: rev_image_eqI)
  then show ?thesis
    using filter_split [OF assms(1), of lo d] assms(2)
    by (simp add: most_recent_def carry_simps)
qed

lemma ffill_from_most_recent:
  assumes "chronological s" and "sorted idx" and "distinct idx"
    and "\<forall>d \<in> set idx. lo < d"
    and "\<forall>t \<in> fst ` set s. lo < t \<longrightarrow> t \<in> set idx"
  shows "ffill_from (most_recent s lo) (map (at_date (series_ffill s)) idx)
     = map (most_recent s) idx"
  using assms(2-5)
proof (induction idx arbitrary: lo)
  case Nil
  then show ?case by simp
next
  case (Cons d0 idx)
  have srt: "sorted (map fst s)" using assms(1) by (simp add: chronological_def)
  have lo: "lo < d0" using Cons.prems by simp
  have above: "\<forall>d \<in> set idx. d0 < d" using Cons.prems by (auto simp add: order_less_le)
  have only: "\<forall>t \<in> fst ` set s. lo < t \<and> t \<le> d0 \<longrightarrow> t = d0"
  proof (intro ballI impI)
    fix t assume "t \<in> fst ` set s" and "lo < t \<and> t \<le> d0"
    then have "t \<in> set (d0 # idx)" using Cons.prems(4) by blast
    then show "t = d0" using above \<open>lo < t \<and> t \<le> d0\<close> by auto
  qed
  have step: "most_recent s d0
      = carry (most_recent s lo) (map snd (filter (\<lambda>(t, v). t = d0) s))"
    using most_recent_step [OF srt lo only] .
  have head: "(if is_nan (at_date (series_ffill s) d0) then most_recent s lo
               else at_date (series_ffill s) d0) = most_recent s d0"
  proof (cases "d0 \<in> fst ` set s")
    case True
    then show ?thesis
      using carry_nan [of "most_recent s lo" "map snd (filter (\<lambda>(t, v). t = d0) s)"] step
      by (auto simp add: at_date_filled [OF assms(1)])
  next
    case False
    then have "filter (\<lambda>(t, v). t = d0) s = []"
      by (auto simp add: filter_empty_conv rev_image_eqI)
    then show ?thesis using False step by (simp add: at_date_filled [OF assms(1)] carry_simps)
  qed
  have rest: "\<forall>t \<in> fst ` set s. d0 < t \<longrightarrow> t \<in> set idx"
    using Cons.prems(4) lo by auto
  have ih: "ffill_from (most_recent s d0) (map (at_date (series_ffill s)) idx)
      = map (most_recent s) idx"
    using Cons.IH [OF _ _ above rest] Cons.prems by simp
  show ?case using head ih by (simp add: Let_def)
qed

lemma lower_bound: "\<exists>lo::int. \<forall>d \<in> set xs. lo < d"
proof (induction xs)
  case Nil
  then show ?case by simp
next
  case (Cons x xs)
  then obtain lo where "\<forall>d \<in> set xs. lo < d" by blast
  then have "\<forall>d \<in> set (x # xs). min lo (x - 1) < d" by auto
  then show ?case by blast
qed

lemma ffill_reindexed:
  assumes "chronological s" and "sorted idx" and "distinct idx"
    and "fst ` set s \<subseteq> set idx"
  shows "ffill (map (at_date (series_ffill s)) idx) = map (most_recent s) idx"
proof -
  obtain lo where lo: "\<forall>d \<in> set idx. lo < d" using lower_bound by blast
  have "\<forall>x \<in> set s. lo < fst x" using lo assms(4) by auto
  then have "filter (\<lambda>(t, v). t \<le> lo) s = []"
    by (auto simp add: filter_empty_conv)
  then have nan: "most_recent s lo = NaN" by (simp add: most_recent_def carry_simps)
  have "\<forall>t \<in> fst ` set s. lo < t \<longrightarrow> t \<in> set idx" using assms(4) by blast
  from ffill_from_most_recent [OF assms(1-3) lo this] show ?thesis
    by (simp add: ffill_def nan)
qed

lemma most_recent_snoc:
  "most_recent (s @ [(t, v)]) d =
     (if t \<le> d \<and> \<not> is_nan v then v else most_recent s d)"
  by (simp add: most_recent_def carry_simps)

lemma most_recent_latest:
  assumes "sorted (map fst s)"
  shows "latest_present s d (most_recent s d)"
  using assms
proof (induction s rule: rev_induct)
  case Nil
  then show ?case by (simp add: latest_present_def most_recent_def carry_simps)
next
  case (snoc a s)
  obtain t v where a: "a = (t, v)" by (cases a)
  have srt: "sorted (map fst s)" and before: "\<forall>x \<in> set s. fst x \<le> t"
    using snoc.prems by (auto simp add: a sorted_append)
  have ih: "latest_present s d (most_recent s d)" using snoc.IH [OF srt] .
  show ?case
  proof (cases "t \<le> d \<and> \<not> is_nan v")
    case True
    have "\<forall>(t', u') \<in> set (s @ [(t, v)]). t' \<le> d \<and> \<not> is_nan u' \<longrightarrow> t' \<le> t"
      using before by auto
    then have "\<exists>(t0, u) \<in> set (s @ [(t, v)]). u = v \<and> t0 \<le> d \<and> \<not> is_nan u
        \<and> (\<forall>(t', u') \<in> set (s @ [(t, v)]). t' \<le> d \<and> \<not> is_nan u' \<longrightarrow> t' \<le> t0)"
      using True by (intro bexI [of _ "(t, v)"]) auto
    moreover have "\<exists>(t0, u) \<in> set (s @ [(t, v)]). t0 \<le> d \<and> \<not> is_nan u"
      using True by auto
    ultimately show ?thesis
      using True unfolding a most_recent_snoc latest_present_def by simp
  next
    case False
    have same: "latest_present (s @ [(t, v)]) d x = latest_present s d x" for x
      using False unfolding latest_present_def by auto
    have mr: "most_recent (s @ [(t, v)]) d = most_recent s d"
      using False by (auto simp add: most_recent_snoc)
    show ?thesis unfolding a mr same by (rule ih)
  qed
qed

lemma map_fst_add_columns: "map fst (add_columns t) = map fst t"
  by (rule nth_equalityI) (simp_all add: length_add_columns add_columns_nth)

lemma add_columns_mem:
  assumes "(d, r) \<in> set (add_columns t)"
  shows "\<exists>r0. (d, r0) \<in> set t \<and> RP r = RP r0 \<and> RRP r = RRP r0 \<and> Reserves r = Reserves r0
     \<and> SOFR r = SOFR r0 \<and> IORB r = IORB r0 \<and> Spread_bps r = spread_of r0"
proof -
  obtain i where i: "i < length t" and eq: "add_columns t ! i = (d, r)"
    using assms by (auto simp add: in_set_conv_nth length_add_columns)
  have "(d, snd (t ! i)) \<in> set t"
    using add_columns_nth(1) [OF i] eq i by (metis fst_conv nth_mem prod.collapse)
  then show ?thesis
    using add_columns_nth [OF i] eq by (intro exI [of _ "snd (t ! i)"]) simp
qed


text \<open>
  Claim C1, as the code has it. On every frame with a row, the assessment returns, and
  the level and score of each indicator are those of the first band that matches, the
  bands taken from danger down to caution, normal when none matches. The change that the
  reserve bands use compares the latest row with the thirtieth row from the end (0 with
  fewer than thirty rows); a latest value of at least 3200 with that change below -5 is
  at caution with score 2: so for a latest value of 3500 against 3800 in the thirtieth
  row from the end, a change of -150/19 (about -7.89).
\<close>

theorem classifier_first_match:
  assumes "df \<noteq> []"
  shows "\<exists>s change.
     assess_liquidity_status df = Inr s
     \<and> res_change_30d df (latest_row df) = Inr change
     \<and> change = (if 30 \<le> length df
                 then pct_change (Reserves (latest_row df))
                        (Reserves (snd (df ! (length df - 30))))
                 else Fin 0)
     \<and> levels s =
         [(K_RP, classify (RP_bands (RP (latest_row df)))),
          (K_RRP, classify (RRP_bands (RRP (latest_row df)))),
          (K_Reserves, classify (Reserves_bands (Reserves (latest_row df)) change)),
          (K_Spread, classify (Spread_bands (Spread_bps (latest_row df))))]
     \<and> (fge (Reserves (latest_row df)) (Fin 3200) \<and> flt change (Fin (- 5)) \<longrightarrow>
          lookup (assessments s) K_Reserves =
            Some \<lparr>level = Caution, score = 2, message = Reserves_sharp_drop change\<rparr>)"
  using assms
  by (simp add: assess_nonempty res_change_30d_eq Let_def levels_def lookup_def res_caution
      classify_rp classify_rrp classify_res classify_spread)

theorem classifier_first_match_witness:
  "thirtieth_from_end \<noteq> [] \<and> length thirtieth_from_end = 31
   \<and> Reserves (latest_row thirtieth_from_end) = Fin 3500
   \<and> Reserves (snd (thirtieth_from_end ! (31 - 30))) = Fin 3800
   \<and> observations_ago 30 (map (Reserves \<circ> snd) thirtieth_from_end) = Some (Fin 3500)
   \<and> res_change_30d thirtieth_from_end (latest_row thirtieth_from_end)
       = Inr (Fin (- 150 / 19))
   \<and> fge (Fin 3500) (Fin 3200) \<and> flt (Fin (- 150 / 19)) (Fin (- 5))
   \<and> (\<exists>s. assess_liquidity_status thirtieth_from_end = Inr s
         \<and> levels s = [(K_RP, Normal, 3), (K_RRP, Normal, 3), (K_Reserves, Caution, 2),
                        (K_Spread, Normal, 3)]
         \<and> lookup (assessments s) K_Reserves =
             Some \<lparr>level = Caution, score = 2, message = Reserves_sharp_drop (Fin (- 150 / 19))\<rparr>)"
proof -
  have len: "length thirtieth_from_end = 31"
    by (simp add: thirtieth_from_end_def length_add_columns length_days)
  have ne: "thirtieth_from_end \<noteq> []" using len by auto
  have l: "RP (latest_row thirtieth_from_end) = Fin 5"
    "RRP (latest_row thirtieth_from_end) = Fin 350"
    "Reserves (latest_row thirtieth_from_end) = Fin 3500"
    "Spread_bps (latest_row thirtieth_from_end) = Fin 5"
    by (simp_all add: thirtieth_from_end_def add_columns_last days_Nil_iff last_days quiet_def
        spread_of_def)
  have r1: "Reserves (snd (thirtieth_from_end ! Suc 0)) = Fin 3800"
    by (simp add: thirtieth_from_end_def length_days add_columns_nth days_nth nth_append
        quiet_def)
  have r0: "Reserves (snd (thirtieth_from_end ! 0)) = Fin 3500"
    by (simp add: thirtieth_from_end_def length_days add_columns_nth days_nth nth_append)
  have ago: "observations_ago 30 (map (Reserves \<circ> snd) thirtieth_from_end) = Some (Fin 3500)"
    by (simp add: observations_ago_def len r0)
  have cmp: "fge (Fin 3500) (Fin 3200) \<and> flt (Fin (- 150 / 19)) (Fin (- 5))"
    by (simp add: fge_def fle_def)
  from classifier_first_match [OF ne] obtain s change where
    s: "assess_liquidity_status thirtieth_from_end = Inr s"
    and rc: "res_change_30d thirtieth_from_end (latest_row thirtieth_from_end) = Inr change"
    and ch: "change = (if 30 \<le> length thirtieth_from_end
                 then pct_change (Reserves (latest_row thirtieth_from_end))
                        (Reserves (snd (thirtieth_from_end ! (length thirtieth_from_end - 30))))
                 else Fin 0)"
    and lv: "levels s =
         [(K_RP, classify (RP_bands (RP (latest_row thirtieth_from_end)))),
          (K_RRP, classify (RRP_bands (RRP (latest_row thirtieth_from_end)))),
          (K_Reserves,
             classify (Reserves_bands (Reserves (latest_row thirtieth_from_end)) change)),
          (K_Spread, classify (Spread_bands (Spread_bps (latest_row thirtieth_from_end))))]"
    and ca: "fge (Reserves (latest_row thirtieth_from_end)) (Fin 3200)
          \<and> flt change (Fin (- 5)) \<longrightarrow>
          lookup (assessments s) K_Reserves =
            Some \<lparr>level = Caution, score = 2, message = Reserves_sharp_drop change\<rparr>"
    by blast
  have change: "change = Fin (- 150 / 19)"
    using ch by (simp add: len l r1 pct_change_def)
  have lv': "levels s = [(K_RP, Normal, 3), (K_RRP, Normal, 3), (K_Reserves, Caution, 2),
                        (K_Spread, Normal, 3)]"
    using lv by (simp add: change l classify_def RP_bands_def RRP_bands_def Reserves_bands_def
        Spread_bands_def fgt_def)
  have lk: "lookup (assessments s) K_Reserves =
             Some \<lparr>level = Caution, score = 2, message = Reserves_sharp_drop (Fin (- 150 / 19))\<rparr>"
    using ca cmp by (simp add: change l)
  from ne len l(3) r1 ago rc change cmp s lv' lk show ?thesis by simp
qed

text \<open>
  Against claim C1 as it is worded: in a frame of thirty-one rows whose reserves stand at
  3800 thirty observations before the latest row and at 3500 from the next row on, the
  latest value 3500 is above both thresholds and its change against the value thirty
  observations before is -150/19, yet the reserves are at normal with score 3.
\<close>

theorem classifier_example_counterexample:
  "Reserves (latest_row late_drop) = Fin 3500
   \<and> observations_ago 30 (map (Reserves \<circ> snd) late_drop) = Some (Fin 3800)
   \<and> fge (Fin 3500) (Fin 3200)
   \<and> change_30_observations_ago late_drop = Fin (- 150 / 19)
   \<and> flt (Fin (- 150 / 19)) (Fin (- 5))
   \<and> (\<exists>s. assess_liquidity_status late_drop = Inr s
         \<and> lookup (assessments s) K_Reserves =
             Some \<lparr>level = Normal, score = 3, message = Reserves_stable (Fin 0)\<rparr>)"
proof -
  have len: "length late_drop = 31"
    by (simp add: late_drop_def length_add_columns length_days)
  have ne: "late_drop \<noteq> []" using len by auto
  have r0: "Reserves (snd (late_drop ! 0)) = Fin 3800"
    by (simp add: late_drop_def length_days add_columns_nth days_nth nth_append quiet_def)
  have r1: "Reserves (snd (late_drop ! Suc 0)) = Fin 3500"
    by (simp add: late_drop_def length_days add_columns_nth days_nth nth_append quiet_def)
  have latest: "Reserves (latest_row late_drop) = Fin 3500"
    by (simp add: late_drop_def add_columns_last days_Nil_iff last_days)
  have ago: "observations_ago 30 (map (Reserves \<circ> snd) late_drop) = Some (Fin 3800)"
    by (simp add: observations_ago_def len r0)
  have worded: "change_30_observations_ago late_drop = Fin (- 150 / 19)"
    by (simp add: change_30_observations_ago_def ago latest pct_change_def)
  have cmp: "fge (Fin 3500) (Fin 3200)" "flt (Fin (- 150 / 19)) (Fin (- 5))"
    by (simp_all add: fge_def fle_def)
  have code: "\<exists>s. assess_liquidity_status late_drop = Inr s
         \<and> lookup (assessments s) K_Reserves =
             Some \<lparr>level = Normal, score = 3, message = Reserves_stable (Fin 0)\<rparr>"
    by (simp add: assess_nonempty [OF ne] Let_def len r1 latest pct_change_def lookup_def
        res_status_def WARNING_LEVELS)
  from latest ago worded cmp code show ?thesis by simp
qed




lemma series_ffill_Nil: "series_ffill [] = []"
  by (simp add: series_ffill_def ffill_def)

lemma fetch_data_with_ffill_eq:
  "fetch_data_with_ffill fred sid start name =
     (fetched fred sid start,
      warnings fred start [(sid, if name \<noteq> [] then name else sid)])"
  by (cases "fred sid start")
     (auto simp add: fetch_data_with_ffill_def fetched_def warnings_def series_ffill_Nil)

lemma fetched_ffill: "fetched fred sid start = series_ffill (observations fred sid start)"
  by (cases "fred sid start") (simp_all add: fetched_def observations_def series_ffill_Nil)

lemma filled_frame:
  assumes "chronological a" "chronological b" "chronological c" "chronological e"
    "chronological g"
  shows "ffill_rows (snd (DataFrame (series_ffill a) (series_ffill b) (series_ffill c)
            (series_ffill e) (series_ffill g)))
     = map (\<lambda>d. (d, \<lparr>RP = most_recent a d, RRP = most_recent b d, Reserves = most_recent c d,
                     SOFR = most_recent e d, IORB = most_recent g d\<rparr>))
         (sort (remdups (map fst a @ map fst b @ map fst c @ map fst e @ map fst g)))"
proof -
  let ?idx = "sort (remdups (map fst a @ map fst b @ map fst c @ map fst e @ map fst g))"
  let ?T = "snd (DataFrame (series_ffill a) (series_ffill b) (series_ffill c)
            (series_ffill e) (series_ffill g))"
  have idx: "sorted ?idx" "distinct ?idx" by simp_all
  have sub: "fst ` set a \<subseteq> set ?idx" "fst ` set b \<subseteq> set ?idx" "fst ` set c \<subseteq> set ?idx"
    "fst ` set e \<subseteq> set ?idx" "fst ` set g \<subseteq> set ?idx"
    by auto
  have T: "?T = map (\<lambda>d. (d, \<lparr>RP = at_date (series_ffill a) d, RRP = at_date (series_ffill b) d,
        Reserves = at_date (series_ffill c) d, SOFR = at_date (series_ffill e) d,
        IORB = at_date (series_ffill g) d\<rparr>)) ?idx"
    by (simp add: DataFrame_def series_ffill_dates)
  have cols: "map (RP \<circ> snd) ?T = map (at_date (series_ffill a)) ?idx"
    "map (RRP \<circ> snd) ?T = map (at_date (series_ffill b)) ?idx"
    "map (Reserves \<circ> snd) ?T = map (at_date (series_ffill c)) ?idx"
    "map (SOFR \<circ> snd) ?T = map (at_date (series_ffill e)) ?idx"
    "map (IORB \<circ> snd) ?T = map (at_date (series_ffill g)) ?idx"
    unfolding T by (simp_all add: comp_def)
  have len: "length ?T = length ?idx" unfolding T by simp
  have fst: "\<And>i. i < length ?idx \<Longrightarrow> fst (?T ! i) = ?idx ! i" unfolding T by simp
  show ?thesis
    unfolding ffill_rows_def cols len
      ffill_reindexed [OF assms(1) idx sub(1)] ffill_reindexed [OF assms(2) idx sub(2)]
      ffill_reindexed [OF assms(3) idx sub(3)] ffill_reindexed [OF assms(4) idx sub(4)]
      ffill_reindexed [OF assms(5) idx sub(5)]
    by (rule nth_equalityI) (simp_all add: fst)
qed


lemma series_ffill_empty: "series_ffill s = [] \<longleftrightarrow> s = []"
  by (simp add: series_ffill_def length_ffill flip: length_0_conv)

lemma index_dtype:
  "fst (DataFrame (series_ffill a) (series_ffill b) (series_ffill c) (series_ffill e)
          (series_ffill g))
     = (if a \<noteq> [] \<and> b \<noteq> [] \<and> c \<noteq> [] \<and> e \<noteq> [] \<and> g \<noteq> []
        then Datetime_index else Other_index)"
  by (simp add: DataFrame_def series_ffill_empty)

lemma pipeline_eq:
  "fetch_liquidity_data fred start_date =
     (case from_start start_date (frame_ffill
          (DataFrame (fetched fred ''RPONTSYD'' start_date)
             (fetched fred ''RRPONTSYD'' start_date)
             (fetched fred ''WRESBAL'' start_date)
             (fetched fred ''SOFR'' start_date)
             (fetched fred ''IORB'' start_date))) of
        Inl e \<Rightarrow> Inl e
      | Inr df \<Rightarrow> Inr (add_columns df),
      warnings fred start_date
        [(''RPONTSYD'', ''RP (Repo)''), (''RRPONTSYD'', ''RRP (Reverse Repo)''),
         (''WRESBAL'', ''Reserves''), (''SOFR'', ''SOFR''), (''IORB'', ''IORB'')])"
  by (simp add: fetch_liquidity_data_def fetch_data_with_ffill_eq warnings_def)

text \<open>With an observation for each of the five series the cut succeeds, and its rows hold
  the most recent observations; with a series that has none it raises.\<close>

lemma aligned_rows:
  assumes "list_all (\<lambda>sid. chronological (observations fred sid start_date)) series_ids"
    and "list_all (\<lambda>sid. observations fred sid start_date \<noteq> []) series_ids"
  shows "from_start start_date (frame_ffill
          (DataFrame (fetched fred ''RPONTSYD'' start_date)
             (fetched fred ''RRPONTSYD'' start_date)
             (fetched fred ''WRESBAL'' start_date)
             (fetched fred ''SOFR'' start_date)
             (fetched fred ''IORB'' start_date)))
     = Inr (map (\<lambda>d. (d, \<lparr>RP = most_recent (observations fred ''RPONTSYD'' start_date) d,
                     RRP = most_recent (observations fred ''RRPONTSYD'' start_date) d,
                     Reserves = most_recent (observations fred ''WRESBAL'' start_date) d,
                     SOFR = most_recent (observations fred ''SOFR'' start_date) d,
                     IORB = most_recent (observations fred ''IORB'' start_date) d\<rparr>))
         (filter (\<lambda>d. start_date \<le> d) (sort (remdups (observed_dates fred start_date)))))"
proof -
  have c: "chronological (observations fred ''RPONTSYD'' start_date)"
    "chronological (observations fred ''RRPONTSYD'' start_date)"
    "chronological (observations fred ''WRESBAL'' start_date)"
    "chronological (observations fred ''SOFR'' start_date)"
    "chronological (observations fred ''IORB'' start_date)"
    using assms(1) by (simp_all add: series_ids_def)
  have n: "observations fred ''RPONTSYD'' start_date \<noteq> []"
    "observations fred ''RRPONTSYD'' start_date \<noteq> []"
    "observations fred ''WRESBAL'' start_date \<noteq> []"
    "observations fred ''SOFR'' start_date \<noteq> []"
    "observations fred ''IORB'' start_date \<noteq> []"
    using assms(2) by (simp_all add: series_ids_def)
  show ?thesis
    unfolding fetched_ffill from_start_def frame_ffill_def
    by (simp add: index_dtype n filled_frame [OF c] observed_dates_def series_ids_def
        filter_map comp_def)
qed

lemma missing_series_raises:
  assumes "\<not> list_all (\<lambda>sid. observations fred sid start_date \<noteq> []) series_ids"
  shows "from_start start_date (frame_ffill
          (DataFrame (fetched fred ''RPONTSYD'' start_date)
             (fetched fred ''RRPONTSYD'' start_date)
             (fetched fred ''WRESBAL'' start_date)
             (fetched fred ''SOFR'' start_date)
             (fetched fred ''IORB'' start_date)))
     = Inl TypeError"
  using assms
  unfolding fetched_ffill from_start_def frame_ffill_def
  by (auto simp add: index_dtype series_ids_def)

lemma frame_raises:
  assumes "\<not> list_all (\<lambda>sid. observations fred sid start_date \<noteq> []) series_ids"
  shows "fst (fetch_liquidity_data fred start_date) = Inl TypeError"
  by (simp add: pipeline_eq missing_series_raises [OF assms])

text \<open>
  Claim C7. With an observation for each of the five series, the frame is returned: it is
  the outer join of the five fetched series, forward-filled, then cut at the start date,
  with the derived columns added. Its dates are the dates of the observations from the
  start date on, in order. When each series comes in date order, at every date of the
  frame each raw column holds the most recent observation present in its series at or
  before that date (missing when there is none), and the spread column is the market
  rate minus the administered rate, times 100.
\<close>

theorem forward_fill_law:
  assumes "list_all (\<lambda>sid. chronological (observations fred sid start_date)) series_ids"
    and "list_all (\<lambda>sid. observations fred sid start_date \<noteq> []) series_ids"
  shows "\<exists>df rows.
     fst (fetch_liquidity_data fred start_date) = Inr df
     \<and> from_start start_date (frame_ffill
          (DataFrame (fetched fred ''RPONTSYD'' start_date)
             (fetched fred ''RRPONTSYD'' start_date)
             (fetched fred ''WRESBAL'' start_date)
             (fetched fred ''SOFR'' start_date)
             (fetched fred ''IORB'' start_date))) = Inr rows
     \<and> df = add_columns rows
     \<and> map fst df =
         filter (\<lambda>d. start_date \<le> d) (sort (remdups (observed_dates fred start_date)))
     \<and> (\<forall>(d, r) \<in> set df.
          (\<forall>(sid, col) \<in> set raw_columns.
             col r = most_recent (observations fred sid start_date) d
             \<and> latest_present (observations fred sid start_date) d (col r))
          \<and> Spread_bps r = fmul (fsub (SOFR r) (IORB r)) (Fin 100))"
proof -
  let ?rows = "map (\<lambda>d. (d, \<lparr>RP = most_recent (observations fred ''RPONTSYD'' start_date) d,
                     RRP = most_recent (observations fred ''RRPONTSYD'' start_date) d,
                     Reserves = most_recent (observations fred ''WRESBAL'' start_date) d,
                     SOFR = most_recent (observations fred ''SOFR'' start_date) d,
                     IORB = most_recent (observations fred ''IORB'' start_date) d\<rparr>))
         (filter (\<lambda>d. start_date \<le> d) (sort (remdups (observed_dates fred start_date))))"
  note cut = aligned_rows [OF assms]
  have df: "fst (fetch_liquidity_data fred start_date) = Inr (add_columns ?rows)"
    by (simp add: pipeline_eq cut)
  have srt: "\<And>sid. sid \<in> set series_ids \<Longrightarrow> sorted (map fst (observations fred sid start_date))"
    using assms(1) by (simp add: list_all_iff chronological_def)
  have lp: "\<And>sid d. sid \<in> set series_ids \<Longrightarrow>
      latest_present (observations fred sid start_date) d
        (most_recent (observations fred sid start_date) d)"
    using srt by (rule most_recent_latest)
  have 2: "map fst (add_columns ?rows) =
         filter (\<lambda>d. start_date \<le> d) (sort (remdups (observed_dates fred start_date)))"
    unfolding map_fst_add_columns by (simp add: comp_def)
  have 3: "\<forall>(d, r) \<in> set (add_columns ?rows).
          (\<forall>(sid, col) \<in> set raw_columns.
             col r = most_recent (observations fred sid start_date) d
             \<and> latest_present (observations fred sid start_date) d (col r))
          \<and> Spread_bps r = fmul (fsub (SOFR r) (IORB r)) (Fin 100)"
  proof (clarify, intro conjI)
    fix d r assume "(d, r) \<in> set (add_columns ?rows)"
    from add_columns_mem [OF this] obtain r0 where
      r0: "(d, r0) \<in> set ?rows" and
      f: "RP r = RP r0" "RRP r = RRP r0" "Reserves r = Reserves r0" "SOFR r = SOFR r0"
        "IORB r = IORB r0" "Spread_bps r = spread_of r0"
      by blast
    have v: "RP r0 = most_recent (observations fred ''RPONTSYD'' start_date) d"
      "RRP r0 = most_recent (observations fred ''RRPONTSYD'' start_date) d"
      "Reserves r0 = most_recent (observations fred ''WRESBAL'' start_date) d"
      "SOFR r0 = most_recent (observations fred ''SOFR'' start_date) d"
      "IORB r0 = most_recent (observations fred ''IORB'' start_date) d"
      using r0 by auto
    show "\<forall>(sid, col) \<in> set raw_columns.
             col r = most_recent (observations fred sid start_date) d
             \<and> latest_present (observations fred sid start_date) d (col r)"
      using lp by (simp add: raw_columns_def f v series_ids_def)
    show "Spread_bps r = fmul (fsub (SOFR r) (IORB r)) (Fin 100)"
      by (simp add: f spread_of_def)
  qed
  from df cut 2 3 show ?thesis by blast
qed

theorem forward_fill_law_witness:
  "list_all (\<lambda>sid. chronological (observations rates_fred sid 1)) series_ids
   \<and> list_all (\<lambda>sid. observations rates_fred sid 1 \<noteq> []) series_ids
   \<and> observations rates_fred ''RPONTSYD'' 1 = [(0, Fin 5), (1, NaN), (2, Fin 6), (4, Fin 7)]
   \<and> observations rates_fred ''WRESBAL'' 1 = [(2, Fin 3500), (3, Fin 3400)]
   \<and> (\<exists>df. fst (fetch_liquidity_data rates_fred 1) = Inr df
        \<and> load_data rates_fred 1 = Loaded df
        \<and> map (\<lambda>(d, r). (d, RP r, RRP r, Reserves r, SOFR r, IORB r, Spread_bps r)) df =
            [(1, Fin 5, Fin 350, NaN, Fin 4.3125, Fin 4.25, Fin 6.25),
             (2, Fin 6, Fin 350, Fin 3500, Fin 4.375, Fin 4.25, Fin 12.5),
             (3, Fin 6, Fin 350, Fin 3400, Fin 4.375, Fin 4.25, Fin 12.5),
             (4, Fin 7, Fin 350, Fin 3400, Fin 4.375, Fin 4.25, Fin 12.5)])"
proof -
  have obs: "observations rates_fred ''RPONTSYD'' 1 = [(0, Fin 5), (1, NaN), (2, Fin 6), (4, Fin 7)]"
    "observations rates_fred ''RRPONTSYD'' 1 = [(1, Fin 350)]"
    "observations rates_fred ''WRESBAL'' 1 = [(2, Fin 3500), (3, Fin 3400)]"
    "observations rates_fred ''SOFR'' 1 = [(1, Fin 4.3125), (2, Fin 4.375)]"
    "observations rates_fred ''IORB'' 1 = [(1, Fin 4.25)]"
    by (simp_all add: observations_def rates_fred_def)
  have ch: "list_all (\<lambda>sid. chronological (observations rates_fred sid 1)) series_ids"
    by (simp add: series_ids_def obs chronological_def)
  have pr: "list_all (\<lambda>sid. observations rates_fred sid 1 \<noteq> []) series_ids"
    by (simp add: series_ids_def obs)
  have dates: "sort (remdups (observed_dates rates_fred 1)) = [0, 1, 2, 3, 4]"
    by (simp add: observed_dates_def series_ids_def obs)
  from forward_fill_law [OF ch pr] obtain df where
    df: "fst (fetch_liquidity_data rates_fred 1) = Inr df"
    and m0: "map fst df =
         filter (\<lambda>d. 1 \<le> d) (sort (remdups (observed_dates rates_fred 1)))"
    and law: "\<forall>(d, r) \<in> set df.
          (\<forall>(sid, col) \<in> set raw_columns.
             col r = most_recent (observations rates_fred sid 1) d
             \<and> latest_present (observations rates_fred sid 1) d (col r))
          \<and> Spread_bps r = fmul (fsub (SOFR r) (IORB r)) (Fin 100)"
    by blast
  have m: "map fst df = [1, 2, 3, 4]" using m0 by (simp add: dates)
  obtain r1 r2 r3 r4 where rows: "df = [(1, r1), (2, r2), (3, r3), (4, r4)]"
    using m by (auto simp add: map_eq_Cons_conv)
  have vals: "map (\<lambda>(d, r). (d, RP r, RRP r, Reserves r, SOFR r, IORB r, Spread_bps r)) df =
       [(1, Fin 5, Fin 350, NaN, Fin 4.3125, Fin 4.25, Fin 6.25),
        (2, Fin 6, Fin 350, Fin 3500, Fin 4.375, Fin 4.25, Fin 12.5),
        (3, Fin 6, Fin 350, Fin 3400, Fin 4.375, Fin 4.25, Fin 12.5),
        (4, Fin 7, Fin 350, Fin 3400, Fin 4.375, Fin 4.25, Fin 12.5)]"
    using law unfolding rows
    by (simp add: raw_columns_def obs most_recent_def carry_def)
  have ld: "load_data rates_fred 1 = Loaded df"
    using df rows by (simp add: load_data_def)
  from df ld vals have "\<exists>df. fst (fetch_liquidity_data rates_fred 1) = Inr df
        \<and> load_data rates_fred 1 = Loaded df
        \<and> map (\<lambda>(d, r). (d, RP r, RRP r, Reserves r, SOFR r, IORB r, Spread_bps r)) df =
            [(1, Fin 5, Fin 350, NaN, Fin 4.3125, Fin 4.25, Fin 6.25),
             (2, Fin 6, Fin 350, Fin 3500, Fin 4.375, Fin 4.25, Fin 12.5),
             (3, Fin 6, Fin 350, Fin 3400, Fin 4.375, Fin 4.25, Fin 12.5),
             (4, Fin 7, Fin 350, Fin 3400, Fin 4.375, Fin 4.25, Fin 12.5)]"
    by (intro exI conjI)
  with ch pr obs(1,3) show ?thesis by (intro conjI)
qed

lemma fetch_cases:
  "fetch_data_with_ffill fred series_id start_date name =
     (case fred series_id start_date of
        Inl e \<Rightarrow> ([], [Fetch_failed (if name \<noteq> [] then name else series_id) e])
      | Inr data \<Rightarrow> (if data = [] then [] else series_ffill data, []))"
  by (cases "fred series_id start_date") (auto simp add: fetch_data_with_ffill_def)

text \<open>
  Claim C8. A fetch whose provider call raises leaves an empty series and a warning with
  the name of the series, and the other fetches go on; a fetch that returns no
  observation leaves an empty series and no warning. The frame is then not built: with
  the reverse volume failing and the four other series fetched, and likewise with no
  observation of the administered rate, cutting the joined frame at the start date
  raises, and the data load of the page ends with that exception.
\<close>

theorem failed_fetch_ends_load:
  "example_fred ''RRPONTSYD'' 1 = Inl Rate_limit
   \<and> fetch_data_with_ffill example_fred ''RRPONTSYD'' 1 ''RRP (Reverse Repo)'' =
       ([], [Fetch_failed ''RRP (Reverse Repo)'' Rate_limit])
   \<and> fetch_data_with_ffill example_fred ''RPONTSYD'' 1 ''RP (Repo)'' =
       ([(0, Fin 5), (1, Fin 5), (2, Fin 6), (4, Fin 7)], [])
   \<and> fetch_data_with_ffill example_fred ''IORB'' 1 ''IORB'' = ([(1, Fin 4.25)], [])
   \<and> fetch_liquidity_data example_fred 1 =
       (Inl TypeError, [Fetch_failed ''RRP (Reverse Repo)'' Rate_limit])
   \<and> load_data example_fred 1 = Load_failed TypeError
   \<and> no_iorb_fred ''IORB'' 1 = Inr []
   \<and> fetch_data_with_ffill no_iorb_fred ''IORB'' 1 ''IORB'' = ([], [])
   \<and> fetch_liquidity_data no_iorb_fred 1 = (Inl TypeError, [])
   \<and> load_data no_iorb_fred 1 = Load_failed TypeError"
proof -
  have p: "example_fred ''RRPONTSYD'' 1 = Inl Rate_limit"
    "example_fred ''RPONTSYD'' 1 = Inr [(0, Fin 5), (1, NaN), (2, Fin 6), (4, Fin 7)]"
    "example_fred ''WRESBAL'' 1 = Inr [(2, Fin 3500), (3, Fin 3400)]"
    "example_fred ''SOFR'' 1 = Inr [(1, Fin 4.3125), (2, Fin 4.375)]"
    "example_fred ''IORB'' 1 = Inr [(1, Fin 4.25)]"
    by (simp_all add: example_fred_def rates_fred_def)
  have q: "no_iorb_fred ''IORB'' 1 = Inr []"
    "no_iorb_fred ''RRPONTSYD'' 1 = Inr [(1, Fin 350)]"
    "no_iorb_fred ''RPONTSYD'' 1 = Inr [(0, Fin 5), (1, NaN), (2, Fin 6), (4, Fin 7)]"
    "no_iorb_fred ''WRESBAL'' 1 = Inr [(2, Fin 3500), (3, Fin 3400)]"
    "no_iorb_fred ''SOFR'' 1 = Inr [(1, Fin 4.3125), (2, Fin 4.375)]"
    by (simp_all add: no_iorb_fred_def rates_fred_def)
  have f1: "fetch_data_with_ffill example_fred ''RRPONTSYD'' 1 ''RRP (Reverse Repo)'' =
       ([], [Fetch_failed ''RRP (Reverse Repo)'' Rate_limit])"
    by (simp add: fetch_cases p)
  have f2: "fetch_data_with_ffill example_fred ''RPONTSYD'' 1 ''RP (Repo)'' =
       ([(0, Fin 5), (1, Fin 5), (2, Fin 6), (4, Fin 7)], [])"
    by (simp add: fetch_cases p series_ffill_def ffill_def Let_def)
  have f3: "fetch_data_with_ffill example_fred ''IORB'' 1 ''IORB'' = ([(1, Fin 4.25)], [])"
    by (simp add: fetch_cases p series_ffill_def ffill_def Let_def)
  have f4: "fetch_data_with_ffill no_iorb_fred ''IORB'' 1 ''IORB'' = ([], [])"
    by (simp add: fetch_cases q)
  have m1: "\<not> list_all (\<lambda>sid. observations example_fred sid 1 \<noteq> []) series_ids"
    by (simp add: series_ids_def observations_def p)
  have m2: "\<not> list_all (\<lambda>sid. observations no_iorb_fred sid 1 \<noteq> []) series_ids"
    by (simp add: series_ids_def observations_def q)
  have w1: "snd (fetch_liquidity_data example_fred 1) =
      [Fetch_failed ''RRP (Reverse Repo)'' Rate_limit]"
    by (simp add: pipeline_eq warnings_def p)
  have w2: "snd (fetch_liquidity_data no_iorb_fred 1) = []"
    by (simp add: pipeline_eq warnings_def q)
  have r1: "fetch_liquidity_data example_fred 1 =
       (Inl TypeError, [Fetch_failed ''RRP (Reverse Repo)'' Rate_limit])"
    using frame_raises [OF m1] w1 by (simp add: prod_eq_iff)
  have r2: "fetch_liquidity_data no_iorb_fred 1 = (Inl TypeError, [])"
    using frame_raises [OF m2] w2 by (simp add: prod_eq_iff)
  have l1: "load_data example_fred 1 = Load_failed TypeError"
    by (simp add: load_data_def r1)
  have l2: "load_data no_iorb_fred 1 = Load_failed TypeError"
    by (simp add: load_data_def r2)
  from p(1) q(1) f1 f2 f3 f4 r1 r2 l1 l2 show ?thesis by simp
qed

lemma leading_is_trailing: "k \<le> w \<Longrightarrow> leading_mean w c k = trailing_mean w c k"
  by (simp add: leading_mean_def trailing_mean_def min_def)

lemma tally_filter:
  "tally xs = (sum_list (map the_fin (filter is_finite xs)), length (filter is_finite xs))"
  by (induction xs rule: tally.induct) simp_all

lemma window_mean_present:
  "window_mean 1 ws = present_mean ws" "window_mean (Suc 0) ws = present_mean ws"
  by (simp_all add: window_mean_def present_mean_def tally_filter Let_def)

lemma present_mean_nan: "is_nan (present_mean ws) = (\<not> list_ex is_finite ws)"
  by (simp add: present_mean_def tally_filter filter_empty_conv list_ex_iff)

lemma rolling_mean_law:
  assumes "0 < k" and "k \<le> length c" and "0 < w"
  shows "ma_law w c k (rolling_mean w 1 c ! (k - 1))"
proof -
  obtain i where k: "k = Suc i" using assms(1) by (cases k) simp_all
  have i: "i < length c" using assms(2) k by simp
  have 1: "rolling_mean w 1 c ! (k - 1) = present_mean (drop (k - min k w) (take k c))"
    using i by (simp add: k rolling_mean_nth window_trailing window_mean_present)
  have 2: "list_all is_finite (take k c) \<Longrightarrow> rolling_mean w 1 c ! (k - 1) = trailing_mean w c k"
    using rolling_mean_trailing [OF assms] by (simp add: list_all_iff)
  show ?thesis
    unfolding ma_law_def
  proof (intro conjI impI)
    show "rolling_mean w 1 c ! (k - 1) = present_mean (drop (k - min k w) (take k c))"
      by (rule 1)
  next
    show "is_nan (rolling_mean w 1 c ! (k - 1))
        = (\<not> list_ex is_finite (drop (k - min k w) (take k c)))"
      unfolding 1 by (rule present_mean_nan)
  next
    assume "list_all is_finite (take k c)"
    then show "rolling_mean w 1 c ! (k - 1) = trailing_mean w c k" by (rule 2)
  next
    assume f: "list_all is_finite (take k c)" and kw: "k \<le> w"
    show "rolling_mean w 1 c ! (k - 1) = leading_mean w c k"
      using 2 [OF f] leading_is_trailing [OF kw, of c] by simp
  qed
qed

text \<open>
  Claim C6, as the code has it. At row \<open>k\<close> of a frame, each moving average of each tracked
  quantity is the plain mean of the values present among the most recent \<open>min k w\<close> rows
  up to row \<open>k\<close>, and is NaN exactly when no value is present there. When the first \<open>k\<close>
  values are all present it is their trailing mean, and while \<open>k\<close> is at most the window
  it is the plain mean of all \<open>k\<close> values.
\<close>

theorem moving_averages_trailing:
  assumes "0 < k" and "k \<le> length t"
  shows "\<forall>(q, ma7, ma30, ma60) \<in> set tracked.
     ma_law 7 (map (q \<circ> snd) t) k (ma7 (snd (add_columns t ! (k - 1))))
     \<and> ma_law 30 (map (q \<circ> snd) t) k (ma30 (snd (add_columns t ! (k - 1))))
     \<and> ma_law 60 (map (q \<circ> snd) t) k (ma60 (snd (add_columns t ! (k - 1))))"
proof -
  have i: "k - 1 < length t" using assms by simp
  have law: "\<And>w q. 0 < w \<Longrightarrow>
      ma_law w (map (q \<circ> snd) t) k (rolling_mean w 1 (map (q \<circ> snd) t) ! (k - 1))"
    by (rule rolling_mean_law) (use assms in simp_all)
  show ?thesis
    by (simp add: tracked_def add_columns_ma [OF i] law del: One_nat_def)
qed

theorem moving_averages_trailing_witness:
  "0 < (3::nat) \<and> 3 \<le> length three_observations \<and> 3 \<le> length late_start
   \<and> (RP, RP_MA7, RP_MA30, RP_MA60) \<in> set tracked
   \<and> (Reserves, Reserves_MA7, Reserves_MA30, Reserves_MA60) \<in> set tracked
   \<and> map (RP \<circ> snd) three_observations = [Fin 3, Fin 6, Fin 12]
   \<and> list_all is_finite (take 3 (map (RP \<circ> snd) three_observations))
   \<and> RP_MA60 (snd (add_columns three_observations ! 2)) = Fin 7
   \<and> leading_mean 60 (map (RP \<circ> snd) three_observations) 3 = Fin ((3 + 6 + 12) / 3)
   \<and> RP_MA60 (snd (add_columns three_observations ! 0)) = Fin 3
   \<and> map (Reserves \<circ> snd) late_start = [NaN, Fin 3500, Fin 3400, Fin 3400]
   \<and> Reserves_MA60 (snd (add_columns late_start ! 2)) = Fin ((3500 + 3400) / 2)
   \<and> Reserves_MA60 (snd (add_columns late_start ! 0)) = NaN"
proof -
  have len: "length three_observations = 3" "length late_start = 4"
    by (simp_all add: three_observations_def late_start_def)
  have mem: "(RP, RP_MA7, RP_MA30, RP_MA60) \<in> set tracked"
    "(Reserves, Reserves_MA7, Reserves_MA30, Reserves_MA60) \<in> set tracked"
    by (simp_all add: tracked_def)
  have c: "map (RP \<circ> snd) three_observations = [Fin 3, Fin 6, Fin 12]"
    by (simp add: three_observations_def)
  have m: "map (Reserves \<circ> snd) late_start = [NaN, Fin 3500, Fin 3400, Fin 3400]"
    by (simp add: late_start_def)
  have fin3: "list_all is_finite (take 3 (map (RP \<circ> snd) three_observations))"
    and fin1: "list_all is_finite (take 1 (map (RP \<circ> snd) three_observations))"
    by (simp_all add: c)
  have "ma_law 60 (map (RP \<circ> snd) three_observations) 3
      (RP_MA60 (snd (add_columns three_observations ! (3 - 1))))"
    using moving_averages_trailing [of 3 three_observations] mem len by auto
  then have r3: "RP_MA60 (snd (add_columns three_observations ! 2)) = Fin 7"
    using fin3 by (simp add: ma_law_def c leading_mean_def trailing_mean_def present_mean_def)
  have "ma_law 60 (map (RP \<circ> snd) three_observations) 1
      (RP_MA60 (snd (add_columns three_observations ! (1 - 1))))"
    using moving_averages_trailing [of 1 three_observations] mem len by auto
  then have r1: "RP_MA60 (snd (add_columns three_observations ! 0)) = Fin 3"
    using fin1 by (simp add: ma_law_def c leading_mean_def trailing_mean_def present_mean_def)
  have lm: "leading_mean 60 (map (RP \<circ> snd) three_observations) 3 = Fin ((3 + 6 + 12) / 3)"
    by (simp add: c leading_mean_def)
  have "ma_law 60 (map (Reserves \<circ> snd) late_start) 3
      (Reserves_MA60 (snd (add_columns late_start ! (3 - 1))))"
    using moving_averages_trailing [of 3 late_start] mem len by auto
  then have "Reserves_MA60 (snd (add_columns late_start ! 2))
      = present_mean (drop (3 - min 3 60) (take 3 (map (Reserves \<circ> snd) late_start)))"
    by (simp add: ma_law_def)
  then have p3: "Reserves_MA60 (snd (add_columns late_start ! 2)) = Fin ((3500 + 3400) / 2)"
    by (simp add: m present_mean_def)
  have "ma_law 60 (map (Reserves \<circ> snd) late_start) 1
      (Reserves_MA60 (snd (add_columns late_start ! (1 - 1))))"
    using moving_averages_trailing [of 1 late_start] mem len by auto
  then have "Reserves_MA60 (snd (add_columns late_start ! 0))
      = present_mean (drop (1 - min 1 60) (take 1 (map (Reserves \<circ> snd) late_start)))"
    by (simp add: ma_law_def)
  then have p1: "Reserves_MA60 (snd (add_columns late_start ! 0)) = NaN"
    by (simp add: m present_mean_def)
  from len mem c fin3 r3 lm r1 m p3 p1 show ?thesis by simp
qed

text \<open>
  Against claim C6 as it is worded. The frame that the first example provider gives from
  day 1 has no reserve value in its first row, the reserves starting a day later: there
  the sixty-row average of the reserves is NaN, at row 1 of a window not yet full, and at
  row 3 it is the mean of the two values present, 3450. And in eight rows with primary
  volume 70, then 0 seven times, the mean of the first seven values is 10, while the
  seven-row average at row 8 is the mean of rows 2 to 8, which is 0.
\<close>

theorem moving_averages_leading_counterexample:
  "(\<exists>df. fst (fetch_liquidity_data rates_fred 1) = Inr df
      \<and> map (Reserves \<circ> snd) df = [NaN, Fin 3500, Fin 3400, Fin 3400]
      \<and> is_nan (Reserves_MA60 (snd (df ! 0)))
      \<and> Reserves_MA60 (snd (df ! 2)) = Fin 3450)
   \<and> length eight_rows = 8
   \<and> map (RP \<circ> snd) eight_rows = [Fin 70, Fin 0, Fin 0, Fin 0, Fin 0, Fin 0, Fin 0, Fin 0]
   \<and> leading_mean 7 (map (RP \<circ> snd) eight_rows) 8 = Fin 10
   \<and> RP_MA7 (snd (add_columns eight_rows ! 7)) = Fin 0
   \<and> RP_MA7 (snd (add_columns eight_rows ! 7)) \<noteq> leading_mean 7 (map (RP \<circ> snd) eight_rows) 8"
proof -
  have obs: "observations rates_fred ''RPONTSYD'' 1 = [(0, Fin 5), (1, NaN), (2, Fin 6), (4, Fin 7)]"
    "observations rates_fred ''RRPONTSYD'' 1 = [(1, Fin 350)]"
    "observations rates_fred ''WRESBAL'' 1 = [(2, Fin 3500), (3, Fin 3400)]"
    "observations rates_fred ''SOFR'' 1 = [(1, Fin 4.3125), (2, Fin 4.375)]"
    "observations rates_fred ''IORB'' 1 = [(1, Fin 4.25)]"
    by (simp_all add: observations_def rates_fred_def)
  have ch: "list_all (\<lambda>sid. chronological (observations rates_fred sid 1)) series_ids"
    by (simp add: series_ids_def obs chronological_def)
  have pr: "list_all (\<lambda>sid. observations rates_fred sid 1 \<noteq> []) series_ids"
    by (simp add: series_ids_def obs)
  have dates: "filter (\<lambda>d. 1 \<le> d) (sort (remdups (observed_dates rates_fred 1))) = [1, 2, 3, 4]"
    by (simp add: observed_dates_def series_ids_def obs)
  have df: "fst (fetch_liquidity_data rates_fred 1) = Inr (add_columns late_start)"
    unfolding pipeline_eq aligned_rows [OF ch pr] dates
    by (simp add: obs most_recent_def carry_def late_start_def)
  have m: "map (Reserves \<circ> snd) late_start = [NaN, Fin 3500, Fin 3400, Fin 3400]"
    by (simp add: late_start_def)
  have len4: "length late_start = 4" by (simp add: late_start_def)
  have col: "map (Reserves \<circ> snd) (add_columns late_start) = [NaN, Fin 3500, Fin 3400, Fin 3400]"
    unfolding m [symmetric]
    by (rule nth_equalityI) (simp_all add: length_add_columns add_columns_nth)
  have a0: "Reserves_MA60 (snd (add_columns late_start ! 0)) = NaN"
    by (simp add: add_columns_ma len4 rolling_mean_nth m window_def window_mean_def)
  have a2: "Reserves_MA60 (snd (add_columns late_start ! 2)) = Fin 3450"
    by (simp add: add_columns_ma len4 rolling_mean_nth m window_def window_mean_def)
  have A: "\<exists>df. fst (fetch_liquidity_data rates_fred 1) = Inr df
      \<and> map (Reserves \<circ> snd) df = [NaN, Fin 3500, Fin 3400, Fin 3400]
      \<and> is_nan (Reserves_MA60 (snd (df ! 0)))
      \<and> Reserves_MA60 (snd (df ! 2)) = Fin 3450"
    using df col a0 a2 by (intro exI [of _ "add_columns late_start"]) simp
  have len: "length eight_rows = 8" by (simp add: eight_rows_def length_days)
  have c: "map (RP \<circ> snd) eight_rows
      = [Fin 70, Fin 0, Fin 0, Fin 0, Fin 0, Fin 0, Fin 0, Fin 0]"
    by (simp add: eight_rows_def days_def upt_rec)
  have lm: "leading_mean 7 (map (RP \<circ> snd) eight_rows) 8 = Fin 10"
    by (simp add: c leading_mean_def)
  have "RP_MA7 (snd (add_columns eight_rows ! 7))
      = window_mean 1 (window 7 (map (RP \<circ> snd) eight_rows) 7)"
    by (simp add: add_columns_ma len rolling_mean_nth)
  also have "\<dots> = Fin 0"
    by (simp add: c window_def window_mean_def)
  finally have ma: "RP_MA7 (snd (add_columns eight_rows ! 7)) = Fin 0" .
  from A len c lm ma show ?thesis by simp
qed

end
